theory Spec2Isabelle
  imports Complex_Main
begin

section \<open>Python values and string formatting\<close>

text \<open>
  The second component of a Hamiltonian term is either \<open>None\<close> or a string holding
  the coefficient expression.  \<open>truthy\<close> is Python's truth test on such a value and
  \<open>py_str\<close> is what the format directive \<open>%s\<close> prints for it.
\<close>

datatype pyval = PyNone | PyStr string

fun truthy :: "pyval \<Rightarrow> bool" where
  "truthy PyNone = False"
| "truthy (PyStr s) = (s \<noteq> [])"

fun py_str :: "pyval \<Rightarrow> string" where
  "py_str PyNone = ''None''"
| "py_str (PyStr s) = s"

definition digit_char :: "nat \<Rightarrow> char" where
  "digit_char d = ''0123456789'' ! d"

text \<open>Decimal rendering of a non-negative integer, as \<open>%d\<close> and \<open>%s\<close> print it.\<close>

function str_nat :: "nat \<Rightarrow> string" where
  "str_nat n = (if n < 10 then [digit_char n] else str_nat (n div 10) @ [digit_char (n mod 10)])"
  by pat_completeness auto
termination
  by (relation "measure id") auto

declare str_nat.simps [simp del]

definition str_int :: "int \<Rightarrow> string" where
  "str_int i = (if i < 0 then ''-'' @ str_nat (nat (- i)) else str_nat (nat i))"

text \<open>Python's \<open>s * n\<close> on a string: the empty string when \<open>n\<close> is not positive.\<close>

definition str_times :: "string \<Rightarrow> int \<Rightarrow> string" where
  "str_times s n = concat (replicate (nat n) s)"

section \<open>The model description\<close>

text \<open>
  A term of \<open>op_system.system\<close> is indexable, with the coefficient at index 1; the
  generator distinguishes Python lists from other sequences (\<open>isinstance(term, list)\<close>).
  The matrix at index 0 is never inspected by the generator.  Terms with fewer than two
  components, on which \<open>term[1]\<close> raises, are outside this type, and so are coefficients
  other than \<open>None\<close> and strings.
\<close>

datatype 'm ham_term = ListTerm 'm pyval | TupleTerm 'm pyval

fun is_list :: "'m ham_term \<Rightarrow> bool" where
  "is_list (ListTerm m c) = True"
| "is_list (TupleTerm m c) = False"

fun item1 :: "'m ham_term \<Rightarrow> pyval" where
  "item1 (ListTerm m c) = c"
| "item1 (TupleTerm m c) = c"

text \<open>
  The two dictionaries are kept as association lists in insertion order, which is the
  order in which Python iterates over them.
\<close>

record ('m, 'v) op_system =
  system :: "'m ham_term list"
  channels :: "(string \<times> int) list"
  vars :: "(string \<times> 'v) list"
  dt :: real

section \<open>The code generator object\<close>

record ('m, 'v) OPCodegen =
  op_system :: "('m, 'v) op_system"
  cg_dt :: real
  num_ham_terms :: nat
  code :: "string list"
  level :: int
  spline_count :: int

datatype error = SyntaxError string

definition init :: "('m, 'v) op_system \<Rightarrow> ('m, 'v) OPCodegen" where
  "init sys = \<lparr> op_system = sys, cg_dt = dt sys, num_ham_terms = length (system sys),
                code = [], level = 0, spline_count = 0 \<rparr>"

definition "write" :: "string \<Rightarrow> ('m, 'v) OPCodegen \<Rightarrow> ('m, 'v) OPCodegen" where
  "write string self =
     self\<lparr>code := code self @ [str_times ''    '' (level self) @ string @ ''\<newline>'']\<rparr>"

definition indent :: "('m, 'v) OPCodegen \<Rightarrow> ('m, 'v) OPCodegen" where
  "indent self = self\<lparr>level := level self + 1\<rparr>"

definition dedent :: "('m, 'v) OPCodegen \<Rightarrow> error + ('m, 'v) OPCodegen" where
  "dedent self =
     (if level self = 0 then Inl (SyntaxError ''Error in code generator'')
      else Inr (self\<lparr>level := level self - 1\<rparr>))"

text \<open>A sequence of emitter calls, run until the first one that raises.\<close>

datatype emit_op = Write string | Indent | Dedent

fun run_op :: "emit_op \<Rightarrow> ('m, 'v) OPCodegen \<Rightarrow> error + ('m, 'v) OPCodegen" where
  "run_op (Write s) self = Inr (write s self)"
| "run_op Indent self = Inr (indent self)"
| "run_op Dedent self = dedent self"

fun run_ops :: "emit_op list \<Rightarrow> ('m, 'v) OPCodegen \<Rightarrow> error + ('m, 'v) OPCodegen" where
  "run_ops [] self = Inr self"
| "run_ops (x # xs) self =
     (case run_op x self of Inl e \<Rightarrow> Inl e | Inr self' \<Rightarrow> run_ops xs self')"

section \<open>The emitted text\<close>

text \<open>
  The include path is computed from the installation directory of an external package
  when the module is loaded; it is a parameter here.
\<close>

definition include_string :: "string \<Rightarrow> string" where
  "include_string cython_path = [CHR 0x27] @ cython_path @ ''complex_math.pxi'' @ [CHR 0x27]"

definition cython_preamble :: "string \<Rightarrow> string list" where
  "cython_preamble cython_path =
     [''#!python\<newline>'' @
      ''#cython: language_level=3\<newline>'' @
      ''# This code is part of Qiskit.\<newline>'' @
      ''#\<newline>'' @
      ''# (C) Copyright IBM 2019.\<newline>'' @
      ''#\<newline>'' @
      ''# This code is licensed under the Apache License, Version 2.0. You may\<newline>'' @
      ''# obtain a copy of this license in the LICENSE.txt file in the root directory\<newline>'' @
      ''# of this source tree or at http://www.apache.org/licenses/LICENSE-2.0.\<newline>'' @
      ''#\<newline>'' @
      ''# Any modifications or derivative works of this code must retain this\<newline>'' @
      ''# copyright notice, and modified files need to carry a notice indicating\<newline>'' @
      ''# that they have been altered from the originals.\<newline>'' @
      ''\<newline>'' @
      ''import numpy as np\<newline>'' @
      ''cimport numpy as np\<newline>'' @
      ''cimport cython\<newline>'' @
      ''np.import_array()\<newline>'' @
      ''cdef extern from '' @ [CHR 0x22] @ ''numpy/arrayobject.h'' @ [CHR 0x22] @ '' nogil:\<newline>'' @
      ''    void PyDataMem_NEW_ZEROED(size_t size, size_t elsize)\<newline>'' @
      ''    void PyArray_ENABLEFLAGS(np.ndarray arr, int flags)\<newline>'' @
      ''\<newline>'' @
      ''from qutip.cy.spmatfuncs cimport spmvpy\<newline>'' @
      ''from qutip.cy.math cimport erf\<newline>'' @
      ''from libc.math cimport pi\<newline>'' @
      ''\<newline>'' @
      ''from openpulse.cython.channel_value cimport channel_value\<newline>'' @
      ''\<newline>'' @
      ''include '' @ include_string cython_path @ ''\<newline>'']"

definition cython_checks :: "string list" where
  "cython_checks =
     [''@cython.cdivision(True)\<newline>'' @
      ''@cython.boundscheck(False)\<newline>'' @
      ''@cython.wraparound(False)'']"

definition ODE_func_header :: "('m, 'v) OPCodegen \<Rightarrow> string list" where
  "ODE_func_header self =
     (let func_name = ''def cy_td_ode_rhs('';
          input_vars = ''\<newline>        double t'' @ '',\<newline>        complex[::1] vec'';
          input_vars = fold (\<lambda>k input_vars. input_vars @
                          ('',\<newline>        '' @
                           ''complex[::1] data'' @ str_nat k @ '', '' @
                           ''int[::1] idx'' @ str_nat k @ '', '' @
                           ''int[::1] ptr'' @ str_nat k))
                        [0..<num_ham_terms self] input_vars;
          input_vars = input_vars @ ('',\<newline>        '' @ ''complex[::1] pulse_array'');
          input_vars = input_vars @ ('',\<newline>        '' @ ''unsigned int[::1] pulse_indices'');
          input_vars = fold (\<lambda>key input_vars.
                          (input_vars @ ('',\<newline>        '' @ ''double[::1] '' @ key @ ''_pulses''))
                            @ ('',\<newline>        '' @ ''double[::1] '' @ key @ ''_fc''))
                        (map fst (channels (op_system self))) input_vars;
          input_vars = fold (\<lambda>key input_vars. input_vars @ ('',\<newline>        '' @ ''complex '' @ key))
                        (map fst (vars (op_system self))) input_vars;
          input_vars = input_vars @ ('',\<newline>        '' @ ''unsigned char[::1] register'');
          func_end = ''):''
      in [func_name @ input_vars @ func_end])"

definition OPCodegen_channels :: "('m, 'v) OPCodegen \<Rightarrow> string list" where
  "OPCodegen_channels self =
     (let channel_lines = [[]];
          channel_lines = channel_lines @ [''# Compute complex channel values at time `t`''];
          channel_lines = fold (\<lambda>(chan, idx) channel_lines.
                            (let chan_str = (chan @ '' = channel_value(t, '' @ str_int idx @ '', '') @
                                            (chan @ ''_pulses,  pulse_array, pulse_indices, '') @
                                            (chan @ ''_fc, register)'')
                             in channel_lines @ [chan_str]))
                          (channels (op_system self)) channel_lines;
          channel_lines = channel_lines @ [[]]
      in channel_lines)"

text \<open>
  The two templates of \<open>func_vars\<close> differ in the coefficient only; \<open>spmv_str coeff i\<close>
  is the template after \<open>.format(i=idx)\<close>, with \<open>coeff\<close> either \<open>td<i>\<close> or \<open>1.0\<close>.
\<close>

definition spmv_str :: "string \<Rightarrow> nat \<Rightarrow> string" where
  "spmv_str coeff i =
     ''spmvpy(&data'' @ str_nat i @ ''[0], &idx'' @ str_nat i @ ''[0], &ptr'' @ str_nat i @ ''[0], '' @
     ''&vec[0], '' @ coeff @ '', &out[0], num_rows)''"

definition func_vars :: "('m, 'v) OPCodegen \<Rightarrow> string list" where
  "func_vars self =
     fold (\<lambda>(idx, term) func_vars.
             if is_list term \<or> truthy (item1 term) then
               ((func_vars @ [''td'' @ str_nat idx @ '' = '' @ py_str (item1 term)])
                  @ [''if abs(td'' @ str_nat idx @ '') > 1e-15:''])
                  @ [''    '' @ spmv_str (''td'' @ str_nat idx) idx]
             else
               func_vars @ [spmv_str ''1.0'' idx])
          (enumerate 0 (system (op_system self)))
          [''# Eval the time-dependent terms and do SPMV.'']"

definition func_end :: "string list" where
  "func_end =
     [[],
      ''# Convert to NumPy array, grab ownership, and return.'',
      ''cdef np.npy_intp dims = num_rows'',
      ''cdef np.ndarray[complex, ndim=1, mode='' @ [CHR 0x27] @ ''c'' @ [CHR 0x27] @ ''] arr_out = '' @
        ''np.PyArray_SimpleNewFromData(1, &dims, np.NPY_COMPLEX128, out)'',
      ''PyArray_ENABLEFLAGS(arr_out, np.NPY_OWNDATA)'',
      ''return arr_out'']"

definition func_header :: "('m, 'v) op_system \<Rightarrow> string list" where
  "func_header sys =
     (let func_vars = [[], ''cdef size_t row'', ''cdef unsigned int num_rows = vec.shape[0]'',
                       ''cdef double complex * '' @
                       ''out = <complex *>PyDataMem_NEW_ZEROED(num_rows,sizeof(complex))''];
          func_vars = func_vars @ [[]];
          func_vars = fold (\<lambda>val func_vars. func_vars @ [''cdef double complex '' @ val])
                        (map fst (channels sys)) func_vars;
          func_vars = fold (\<lambda>(kk, item) func_vars.
                          if truthy (item1 item)
                          then func_vars @ [''cdef double complex td'' @ str_nat kk]
                          else func_vars)
                        (enumerate 0 (system sys)) func_vars
      in func_vars)"

section \<open>Generation\<close>

text \<open>
  The world outside the generator object: the files written so far, by name, and the
  module-level counter \<open>CGEN_NUM\<close> of the settings module.
\<close>

record world =
  files :: "string \<rightharpoonup> string"
  CGEN_NUM :: int

definition write_lines :: "string list \<Rightarrow> ('m, 'v) OPCodegen \<Rightarrow> ('m, 'v) OPCodegen" where
  "write_lines ls self = fold write ls self"

text \<open>
  \<open>generate\<close> writes the accumulated lines to the file named by its argument, which
  is opened for writing (and so truncated), and then adds one to the counter.  When
  \<open>dedent\<close> raises, the file is not opened and the counter is not touched.  Opening and
  writing the file are taken to succeed.
\<close>

definition generate ::
    "string \<Rightarrow> string \<Rightarrow> ('m, 'v) OPCodegen \<Rightarrow> world \<Rightarrow> error + (('m, 'v) OPCodegen \<times> world)" where
  "generate cython_path filename self w =
     (let self = write_lines (cython_preamble cython_path) self;
          self = write_lines (cython_checks @ ODE_func_header self) self;
          self = indent self;
          self = write_lines (func_header (op_system self)) self;
          self = write_lines (OPCodegen_channels self) self;
          self = write_lines (func_vars self) self;
          self = write_lines func_end self
      in case dedent self of
           Inl e \<Rightarrow> Inl e
         | Inr self \<Rightarrow>
             Inr (self, w\<lparr>files := (files w)(filename \<mapsto> concat (code self)),
                          CGEN_NUM := CGEN_NUM w + 1\<rparr>))"

text \<open>The call \<open>generate()\<close>, with the default value of the file name.\<close>

definition generate_default ::
    "string \<Rightarrow> ('m, 'v) OPCodegen \<Rightarrow> world \<Rightarrow> error + (('m, 'v) OPCodegen \<times> world)" where
  "generate_default cython_path self w = generate cython_path ''rhs.pyx'' self w"

section \<open>Closed forms and observations of the emitted text\<close>

text \<open>
  The definitions of this section are not functions of the generator.  The first four
  name what one iteration of a loop of the generator appends (the statement of one
  channel, the block of one term in \<open>func_vars\<close>, the declaration of one term in
  \<open>func_header\<close>) and what one run of \<open>generate\<close> appends; each is proved equal to what the
  generator computes (\<open>OPCodegen_channels_eq\<close>, \<open>func_vars_eq\<close>, \<open>func_header_eq\<close>,
  \<open>generate_level0\<close>).
\<close>

definition chan_str :: "string \<times> int \<Rightarrow> string" where
  "chan_str p = (case p of (chan, idx) \<Rightarrow>
     chan @ '' = channel_value(t, '' @ str_int idx @ '', '' @ chan @
     ''_pulses,  pulse_array, pulse_indices, '' @ chan @ ''_fc, register)'')"

definition term_lines :: "nat \<times> 'm ham_term \<Rightarrow> string list" where
  "term_lines p = (case p of (idx, term) \<Rightarrow>
     if is_list term \<or> truthy (item1 term)
     then [''td'' @ str_nat idx @ '' = '' @ py_str (item1 term),
           ''if abs(td'' @ str_nat idx @ '') > 1e-15:'',
           ''    '' @ spmv_str (''td'' @ str_nat idx) idx]
     else [spmv_str ''1.0'' idx])"

definition td_decl :: "nat \<times> 'm ham_term \<Rightarrow> string list" where
  "td_decl p = (case p of (kk, item) \<Rightarrow>
     if truthy (item1 item) then [''cdef double complex td'' @ str_nat kk] else [])"

text \<open>The lines that one run of \<open>generate\<close> appends on an object whose level is 0.\<close>

definition emitted :: "string \<Rightarrow> ('m, 'v) OPCodegen \<Rightarrow> string list" where
  "emitted cython_path self =
     map (\<lambda>l. l @ ''\<newline>'') (cython_preamble cython_path @ cython_checks @ ODE_func_header self)
     @ map (\<lambda>l. ''    '' @ l @ ''\<newline>'')
         (func_header (op_system self) @ OPCodegen_channels self @ func_vars self @ func_end)"

text \<open>
  The arguments of the kernel as the specification lists them, \<open>header_args\<close>, and the
  same list with the white space that the generator puts in front of each declaration,
  \<open>header_decls\<close>.
\<close>

definition header_decls :: "('m, 'v) op_system \<Rightarrow> (string \<times> string) list" where
  "header_decls sys =
     [(''\<newline>        '', ''double t''), (''\<newline>        '', ''complex[::1] vec'')]
     @ concat (map (\<lambda>k. [(''\<newline>        '', ''complex[::1] data'' @ str_nat k),
                          ('' '', ''int[::1] idx'' @ str_nat k),
                          ('' '', ''int[::1] ptr'' @ str_nat k)])
                 [0..<length (system sys)])
     @ [(''\<newline>        '', ''complex[::1] pulse_array''),
        (''\<newline>        '', ''unsigned int[::1] pulse_indices'')]
     @ concat (map (\<lambda>key. [(''\<newline>        '', ''double[::1] '' @ key @ ''_pulses''),
                            (''\<newline>        '', ''double[::1] '' @ key @ ''_fc'')])
                 (map fst (channels sys)))
     @ map (\<lambda>key. (''\<newline>        '', ''complex '' @ key)) (map fst (vars sys))
     @ [(''\<newline>        '', ''unsigned char[::1] register'')]"

definition header_args :: "('m, 'v) op_system \<Rightarrow> string list" where
  "header_args sys =
     [''double t'', ''complex[::1] vec'']
     @ concat (map (\<lambda>k. [''complex[::1] data'' @ str_nat k,
                          ''int[::1] idx'' @ str_nat k,
                          ''int[::1] ptr'' @ str_nat k])
                 [0..<length (system sys)])
     @ [''complex[::1] pulse_array'', ''unsigned int[::1] pulse_indices'']
     @ concat (map (\<lambda>key. [''double[::1] '' @ key @ ''_pulses'', ''double[::1] '' @ key @ ''_fc''])
                 (map fst (channels sys)))
     @ map (\<lambda>key. ''complex '' @ key) (map fst (vars sys))
     @ [''unsigned char[::1] register'']"

text \<open>
  Reading the arguments back from the text of a header: the text between
  \<open>def cy_td_ode_rhs(\<close> (18 characters) and \<open>):\<close> is split at its commas and the white
  space in front of each piece is dropped.
\<close>

fun split_on :: "char \<Rightarrow> string \<Rightarrow> string list" where
  "split_on c [] = [[]]"
| "split_on c (x # xs) =
     (if x = c then [] # split_on c xs
      else (case split_on c xs of [] \<Rightarrow> [[x]] | w # ws \<Rightarrow> (x # w) # ws))"

definition lstrip :: "string \<Rightarrow> string" where
  "lstrip s = dropWhile (\<lambda>c. c = CHR '' '' \<or> c = CHR ''\<newline>'') s"

definition declared_args :: "string \<Rightarrow> string list" where
  "declared_args h =
     map lstrip (split_on CHR '','' (take (length h - 20) (drop 18 h)))"

text \<open>A line of the generator that opens the definition of the kernel.\<close>

definition defines_kernel :: "string \<Rightarrow> bool" where
  "defines_kernel l = (take 18 l = ''def cy_td_ode_rhs('')"

section \<open>Example models\<close>

text \<open>
  A model with a time-dependent term, a constant term, one channel and one free variable;
  the terms are tuples.
\<close>

definition example_system :: "(unit, unit) op_system" where
  "example_system =
     \<lparr> system = [TupleTerm () (PyStr ''D0*v''), TupleTerm () PyNone],
       channels = [(''D0'', 0)], vars = [(''v'', ())], dt = 1 \<rparr>"

text \<open>A model whose channel is named \<open>vec\<close> and whose free variable is named \<open>t\<close>.\<close>

definition colliding_system :: "(unit, unit) op_system" where
  "colliding_system =
     \<lparr> system = [TupleTerm () (PyStr ''vec'')],
       channels = [(''vec'', 0)], vars = [(''t'', ())], dt = 1 \<rparr>"

text \<open>A model whose only term is a Python list with no coefficient expression.\<close>

definition list_term_system :: "(unit, unit) op_system" where
  "list_term_system =
     \<lparr> system = [ListTerm () PyNone], channels = [], vars = [], dt = 1 \<rparr>"

text \<open>A model with no Hamiltonian term and one channel.\<close>

definition empty_system :: "(unit, unit) op_system" where
  "empty_system = \<lparr> system = [], channels = [(''D0'', 0)], vars = [], dt = 1 \<rparr>"

text \<open>
  Reading a decimal numeral back: the value of a digit, of a string of digits, and of
  an optional minus sign followed by digits.
\<close>

definition digit_val :: "char \<Rightarrow> nat" where
  "digit_val c = length (takeWhile (\<lambda>d. d \<noteq> c) ''0123456789'')"

definition nat_of_str :: "string \<Rightarrow> nat" where
  "nat_of_str s = foldl (\<lambda>acc c. 10 * acc + digit_val c) 0 s"

definition int_of_str :: "string \<Rightarrow> int" where
  "int_of_str s =
     (case s of
        [] \<Rightarrow> 0
      | c # r \<Rightarrow> if c = CHR ''-'' then - int (nat_of_str r) else int (nat_of_str s))"

text \<open>A model with two channels, the second with a two-digit index.\<close>

definition two_channel_system :: "(unit, unit) op_system" where
  "two_channel_system =
     \<lparr> system = [TupleTerm () (PyStr ''D0*v'')],
       channels = [(''D0'', 0), (''U1'', 12)], vars = [(''v'', ())], dt = 1 \<rparr>"

section \<open>Auxiliary facts\<close>

lemma str_times_spaces: "0 \<le> n \<Longrightarrow> str_times ''    '' n = replicate (4 * nat n) CHR '' ''"
proof -
  have "concat (replicate k ''    '') = replicate (4 * k) CHR '' ''" for k :: nat
    by (induction k) (simp_all add: replicate_add eval_nat_numeral)
  then show ?thesis by (simp add: str_times_def)
qed

lemma run_op_level: "0 \<le> level self \<Longrightarrow> run_op x self = Inr self' \<Longrightarrow> 0 \<le> level self'"
  by (cases x) (auto simp: write_def indent_def dedent_def split: if_splits)

lemma run_ops_level: "0 \<le> level self \<Longrightarrow> run_ops xs self = Inr self' \<Longrightarrow> 0 \<le> level self'"
proof (induction xs arbitrary: self)
  case Nil
  then show ?case by simp
next
  case (Cons x xs)
  then show ?case
    by (auto split: sum.splits dest: run_op_level)
qed

lemma fold_append_concat: "fold (\<lambda>x acc. acc @ f x) xs acc = acc @ concat (map f xs)"
  by (induction xs arbitrary: acc) simp_all

lemma fold_append_if:
  "fold (\<lambda>x acc. if p x then acc @ f x else acc @ g x) xs acc
     = acc @ concat (map (\<lambda>x. if p x then f x else g x) xs)"
  by (induction xs arbitrary: acc) simp_all

lemma write_lines_eq:
  "write_lines ls self
     = self\<lparr>code := code self @ map (\<lambda>l. str_times ''    '' (level self) @ l @ ''\<newline>'') ls\<rparr>"
  unfolding write_lines_def
  by (induction ls arbitrary: self) (simp_all add: write_def)

lemma OPCodegen_channels_eq:
  "OPCodegen_channels self =
     [[], ''# Compute complex channel values at time `t`'']
       @ map chan_str (channels (op_system self)) @ [[]]"
proof -
  have "fold (\<lambda>(chan, idx) channel_lines.
                            (let chan_str = (chan @ '' = channel_value(t, '' @ str_int idx @ '', '') @
                                            (chan @ ''_pulses,  pulse_array, pulse_indices, '') @
                                            (chan @ ''_fc, register)'')
                             in channel_lines @ [chan_str])) xs acc = acc @ map chan_str xs" for xs acc
    by (induction xs arbitrary: acc) (simp_all add: chan_str_def split: prod.splits)
  then show ?thesis
    by (simp add: OPCodegen_channels_def Let_def)
qed

lemma func_vars_eq:
  "func_vars self =
     ''# Eval the time-dependent terms and do SPMV.''
       # concat (map term_lines (enumerate 0 (system (op_system self))))"
proof -
  have a: "fold (\<lambda>(idx, term) func_vars.
             if is_list term \<or> truthy (item1 term) then
               ((func_vars @ [''td'' @ str_nat idx @ '' = '' @ py_str (item1 term)])
                  @ [''if abs(td'' @ str_nat idx @ '') > 1e-15:''])
                  @ [''    '' @ spmv_str (''td'' @ str_nat idx) idx]
             else
               func_vars @ [spmv_str ''1.0'' idx]) xs acc = acc @ concat (map term_lines xs)"
    for xs :: "(nat \<times> 'm ham_term) list" and acc
    by (induction xs arbitrary: acc) (simp_all add: term_lines_def split: prod.splits)
  show ?thesis
    unfolding func_vars_def a by simp
qed

lemma func_header_eq:
  "func_header sys =
     [[], ''cdef size_t row'', ''cdef unsigned int num_rows = vec.shape[0]'',
      ''cdef double complex * out = <complex *>PyDataMem_NEW_ZEROED(num_rows,sizeof(complex))'',
      []]
       @ map (\<lambda>val. ''cdef double complex '' @ val) (map fst (channels sys))
       @ concat (map td_decl (enumerate 0 (system sys)))"
proof -
  have a: "fold (\<lambda>val func_vars. func_vars @ [''cdef double complex '' @ val]) xs acc
             = acc @ map (\<lambda>val. ''cdef double complex '' @ val) xs" for xs acc
    by (induction xs arbitrary: acc) simp_all
  have b: "fold (\<lambda>(kk, item) func_vars.
                          if truthy (item1 item)
                          then func_vars @ [''cdef double complex td'' @ str_nat kk]
                          else func_vars) ys acc = acc @ concat (map td_decl ys)"
    for ys :: "(nat \<times> 'm ham_term) list" and acc
    by (induction ys arbitrary: acc) (simp_all add: td_decl_def split: prod.splits)
  show ?thesis
    unfolding func_header_def Let_def a b by simp
qed

lemma emitted_code_update [simp]: "emitted cython_path (self\<lparr>code := c\<rparr>) = emitted cython_path self"
  by (simp add: emitted_def ODE_func_header_def OPCodegen_channels_def func_vars_def)

lemma generate_level0:
  assumes "level self = 0"
  shows "generate cython_path filename self w =
           Inr (self\<lparr>code := code self @ emitted cython_path self\<rparr>,
                w\<lparr>files := (files w)(filename \<mapsto> concat (code self @ emitted cython_path self)),
                  CGEN_NUM := CGEN_NUM w + 1\<rparr>)"
proof -
  have t0: "str_times ''    '' 0 = []" and t1: "str_times ''    '' 1 = ''    ''"
    by (simp_all add: str_times_def)
  have h: "ODE_func_header (self\<lparr>code := c\<rparr>) = ODE_func_header self"
    and c: "OPCodegen_channels (self\<lparr>code := c, level := l\<rparr>) = OPCodegen_channels self"
    and v: "func_vars (self\<lparr>code := c, level := l\<rparr>) = func_vars self"
    and c': "OPCodegen_channels (self\<lparr>level := l, code := c\<rparr>) = OPCodegen_channels self"
    and v': "func_vars (self\<lparr>level := l, code := c\<rparr>) = func_vars self" for c l
    by (simp_all add: ODE_func_header_def OPCodegen_channels_def func_vars_def)
  have r: "self\<lparr>code := c, level := 0\<rparr> = self\<lparr>code := c\<rparr>" for c
    using assms by (cases self) simp
  show ?thesis
    using assms
    by (simp add: generate_def Let_def write_lines_eq indent_def dedent_def emitted_def
        t0 t1 h c v c' v' r)
qed

lemma ODE_func_header_eq:
  "ODE_func_header self =
     [''def cy_td_ode_rhs('' @
      (''\<newline>        double t'' @ '',\<newline>        complex[::1] vec''
       @ concat (map (\<lambda>k. '',\<newline>        '' @
                           ''complex[::1] data'' @ str_nat k @ '', '' @
                           ''int[::1] idx'' @ str_nat k @ '', '' @
                           ''int[::1] ptr'' @ str_nat k) [0..<num_ham_terms self])
       @ ('',\<newline>        '' @ ''complex[::1] pulse_array'')
       @ ('',\<newline>        '' @ ''unsigned int[::1] pulse_indices'')
       @ concat (map (\<lambda>key. ('',\<newline>        '' @ ''double[::1] '' @ key @ ''_pulses'')
                            @ ('',\<newline>        '' @ ''double[::1] '' @ key @ ''_fc''))
                  (map fst (channels (op_system self))))
       @ concat (map (\<lambda>key. '',\<newline>        '' @ ''complex '' @ key) (map fst (vars (op_system self))))
       @ ('',\<newline>        '' @ ''unsigned char[::1] register''))
      @ ''):'']"
proof -
  have a: "fold (\<lambda>key input_vars.
                          (input_vars @ ('',\<newline>        '' @ ''double[::1] '' @ key @ ''_pulses''))
                            @ ('',\<newline>        '' @ ''double[::1] '' @ key @ ''_fc'')) xs acc
           = acc @ concat (map (\<lambda>key. ('',\<newline>        '' @ ''double[::1] '' @ key @ ''_pulses'')
                            @ ('',\<newline>        '' @ ''double[::1] '' @ key @ ''_fc'')) xs)" for xs acc
    by (induction xs arbitrary: acc) simp_all
  show ?thesis
    unfolding ODE_func_header_def Let_def a fold_append_concat by simp
qed

lemma concat_map_concat_map:
  "concat (map f (concat (map g xs))) = concat (map (\<lambda>x. concat (map f (g x))) xs)"
  by (induction xs) simp_all

lemma map_concat_map: "map f (concat (map g xs)) = concat (map (\<lambda>x. map f (g x)) xs)"
  by (induction xs) simp_all

lemma length_concat_map_const:
  "(\<And>x. length (f x) = n) \<Longrightarrow> length (concat (map f xs)) = n * length xs"
  by (induction xs) simp_all

lemma header_from_decls:
  "ODE_func_header (init sys) =
     [''def cy_td_ode_rhs('' @
      tl (concat (map (\<lambda>(w, d). '','' @ w @ d) (header_decls sys))) @ ''):'']"
  by (simp add: ODE_func_header_eq init_def header_decls_def concat_map_concat_map o_def)

lemma header_decls_args: "map snd (header_decls sys) = header_args sys"
  by (simp add: header_decls_def header_args_def map_concat_map o_def)

lemma header_decls_layout:
  "set (map fst (header_decls sys)) \<subseteq> {''\<newline>        '', '' ''}"
  by (auto simp: header_decls_def)

lemma length_header_args:
  "length (header_args sys) =
     2 + 3 * length (system sys) + 2 + 2 * length (channels sys) + length (vars sys) + 1"
  by (simp add: header_args_def length_concat_map_const)

lemma digit_char_digit: "d < 10 \<Longrightarrow> digit_char d \<in> set ''0123456789''"
proof -
  assume "d < 10"
  then have "d \<in> {0, 1, 2, 3, 4, 5, 6, 7, 8, 9}" by auto
  then show ?thesis by (auto simp: digit_char_def)
qed

lemma str_nat_digits: "set (str_nat n) \<subseteq> set ''0123456789''"
proof (induction n rule: str_nat.induct)
  case (1 n)
  show ?case
  proof (cases "n < 10")
    case True
    then show ?thesis
      using digit_char_digit [of n] by (subst str_nat.simps) simp
  next
    case False
    have "n mod 10 < 10" by simp
    then have "digit_char (n mod 10) \<in> set ''0123456789''" by (rule digit_char_digit)
    with False 1 show ?thesis by (subst str_nat.simps) simp
  qed
qed

lemma str_nat_no_comma: "CHR '','' \<notin> set (str_nat n)"
  using str_nat_digits [of n] by auto

lemma split_on_not_Nil: "split_on c xs \<noteq> []"
  by (induction xs) (auto split: list.splits)

lemma split_on_append:
  "c \<notin> set s \<Longrightarrow> split_on c (s @ ys) = (s @ hd (split_on c ys)) # tl (split_on c ys)"
proof (induction s)
  case Nil
  then show ?case using split_on_not_Nil [of c ys] by simp
next
  case (Cons x s)
  then show ?case by auto
qed

lemma split_on_concat:
  "(\<And>s. s \<in> set segs \<Longrightarrow> c \<notin> set s) \<Longrightarrow> split_on c (concat (map ((#) c) segs)) = [] # segs"
proof (induction segs)
  case Nil
  then show ?case by simp
next
  case (Cons s segs)
  then have "split_on c (concat (map ((#) c) segs)) = [] # segs" and "c \<notin> set s"
    by simp_all
  then show ?case by (simp add: split_on_append)
qed

lemma header_decls_no_comma:
  assumes "\<forall>key \<in> set (map fst (channels sys) @ map fst (vars sys)). CHR '','' \<notin> set key"
    and "(w, d) \<in> set (header_decls sys)"
  shows "CHR '','' \<notin> set (w @ d)"
proof -
  from assms(1) have k: "CHR '','' \<notin> set a" if "(a, b) \<in> set (channels sys)" for a b
    using that by force
  from assms(1) have v: "CHR '','' \<notin> set a" if "(a, b) \<in> set (vars sys)" for a b
    using that by force
  from assms(2) show ?thesis
    by (auto simp: header_decls_def str_nat_no_comma dest: k v)
qed

lemma header_decls_lstrip:
  "(w, d) \<in> set (header_decls sys) \<Longrightarrow> lstrip (w @ d) = d"
  by (auto simp: header_decls_def lstrip_def)

lemma declared_args_header:
  assumes "\<forall>key \<in> set (map fst (channels sys) @ map fst (vars sys)). CHR '','' \<notin> set key"
  shows "declared_args (''def cy_td_ode_rhs('' @
           tl (concat (map (\<lambda>(w, d). '','' @ w @ d) (header_decls sys))) @ ''):'')
         = header_args sys"
proof -
  define segs where "segs = map (\<lambda>(w, d). w @ d) (header_decls sys)"
  define body where "body = tl (concat (map ((#) CHR '','') segs))"
  have c: "concat (map (\<lambda>(w, d). '','' @ w @ d) (header_decls sys)) = concat (map ((#) CHR '','') segs)"
    by (simp add: segs_def o_def split_def)
  have nocomma: "CHR '','' \<notin> set s" if "s \<in> set segs" for s
    using that assms header_decls_no_comma [of sys] by (auto simp: segs_def)
  have "split_on CHR '','' (concat (map ((#) CHR '','') segs)) = [] # segs"
    using nocomma by (rule split_on_concat)
  moreover have "segs \<noteq> []"
    by (simp add: segs_def header_decls_def)
  ultimately have sp: "split_on CHR '','' body = segs"
    by (cases segs) (simp_all add: body_def)
  have "declared_args (''def cy_td_ode_rhs('' @ body @ ''):'') = map lstrip (split_on CHR '','' body)"
    by (simp add: declared_args_def)
  also have "\<dots> = map lstrip segs"
    by (simp only: sp)
  also have "\<dots> = map snd (header_decls sys)"
    using header_decls_lstrip [of _ _ sys] by (auto simp: segs_def)
  finally show ?thesis
    unfolding body_def c [symmetric] by (simp add: header_decls_args)
qed

lemma str_nat_0: "str_nat 0 = ''0''"
  by (simp add: str_nat.simps digit_char_def)

lemma str_nat_Suc_0: "str_nat (Suc 0) = ''1''"
  by (simp add: str_nat.simps digit_char_def)

lemma upt_0_2: "[0..<2] = [0, Suc 0]"
  by (simp add: upt_rec)

lemma generate_init:
  "generate cython_path filename (init sys) w =
     Inr ((init sys)\<lparr>code := emitted cython_path (init sys)\<rparr>,
          w\<lparr>files := (files w)(filename \<mapsto> concat (emitted cython_path (init sys))),
            CGEN_NUM := CGEN_NUM w + 1\<rparr>)"
proof -
  have "level (init sys) = 0" and c: "code (init sys) = []"
    by (simp_all add: init_def)
  then show ?thesis
    using generate_level0 [of "init sys" cython_path filename w] by simp
qed

lemma kernel_defs_emitted:
  "length (filter defines_kernel (emitted cython_path self)) = 1"
proof -
  have a: "filter defines_kernel (map (\<lambda>l. ''    '' @ l @ ''\<newline>'') xs) = []" for xs
    by (induction xs) (simp_all add: defines_kernel_def)
  have p: "filter defines_kernel (map (\<lambda>l. l @ ''\<newline>'') (cython_preamble cython_path)) = []"
    by (simp add: cython_preamble_def defines_kernel_def)
  have k: "filter defines_kernel (map (\<lambda>l. l @ ''\<newline>'') cython_checks) = []"
    by (simp add: cython_checks_def defines_kernel_def)
  have h: "length (filter defines_kernel (map (\<lambda>l. l @ ''\<newline>'') (ODE_func_header self))) = 1"
    by (simp add: ODE_func_header_eq defines_kernel_def)
  show ?thesis
    unfolding emitted_def by (simp only: filter_append map_append a p k h append_Nil append_Nil2 list.size length_append) 
qed

lemma upt_0_1: "[0..<1] = [0]"
  by (simp add: upt_rec)

lemma in_concat_map_split:
  "x \<in> set xs \<Longrightarrow> \<exists>a b. concat (map f xs) = a @ f x @ b"
proof -
  assume "x \<in> set xs"
  then obtain ys zs where "xs = ys @ x # zs"
    by (auto simp: in_set_conv_decomp)
  then have "concat (map f xs) = concat (map f ys) @ f x @ concat (map f zs)"
    by simp
  then show ?thesis by blast
qed

lemma header_has_var:
  assumes "name \<in> set (map fst (vars (op_system self)))"
  shows "\<exists>a b. ODE_func_header self = [a @ '',\<newline>        complex '' @ name @ b]"
proof -
  define P where "P = ''def cy_td_ode_rhs('' @
      ''\<newline>        double t'' @ '',\<newline>        complex[::1] vec''
       @ concat (map (\<lambda>k. '',\<newline>        '' @
                           ''complex[::1] data'' @ str_nat k @ '', '' @
                           ''int[::1] idx'' @ str_nat k @ '', '' @
                           ''int[::1] ptr'' @ str_nat k) [0..<num_ham_terms self])
       @ ('',\<newline>        '' @ ''complex[::1] pulse_array'')
       @ ('',\<newline>        '' @ ''unsigned int[::1] pulse_indices'')
       @ concat (map (\<lambda>key. ('',\<newline>        '' @ ''double[::1] '' @ key @ ''_pulses'')
                            @ ('',\<newline>        '' @ ''double[::1] '' @ key @ ''_fc''))
                  (map fst (channels (op_system self))))"
  define S where "S = ('',\<newline>        '' @ ''unsigned char[::1] register'') @ ''):''"
  define V where "V = concat (map (\<lambda>key. '',\<newline>        '' @ ''complex '' @ key)
                                (map fst (vars (op_system self))))"
  have h: "ODE_func_header self = [P @ V @ S]"
    unfolding P_def S_def V_def ODE_func_header_eq by simp
  from in_concat_map_split [OF assms, of "\<lambda>key. '',\<newline>        '' @ ''complex '' @ key"]
  obtain a b where eq: "V = a @ ('',\<newline>        '' @ ''complex '' @ name) @ b"
    unfolding V_def by blast
  have "ODE_func_header self = [(P @ a) @ '',\<newline>        complex '' @ name @ (b @ S)]"
    unfolding h eq by simp
  then show ?thesis
    by (intro exI)
qed

lemma emitted_has_channel_local:
  assumes "name \<in> set (map fst (channels (op_system self)))"
  shows "''    cdef double complex '' @ name @ ''\<newline>'' \<in> set (emitted cython_path self)"
proof -
  from assms have "''cdef double complex '' @ name \<in> set (func_header (op_system self))"
    unfolding func_header_eq by auto
  then have "''    '' @ (''cdef double complex '' @ name) @ ''\<newline>''
               \<in> (\<lambda>l. ''    '' @ l @ ''\<newline>'') ` set (func_header (op_system self))"
    by (rule imageI)
  then show ?thesis
    unfolding emitted_def by simp
qed

lemma emitted_has_var_argument:
  assumes "name \<in> set (map fst (vars (op_system self)))"
  shows "\<exists>a b. a @ '',\<newline>        complex '' @ name @ b \<in> set (emitted cython_path self)"
proof -
  from header_has_var [OF assms] obtain a b where
    h: "ODE_func_header self = [a @ '',\<newline>        complex '' @ name @ b]"
    by blast
  have "(a @ '',\<newline>        complex '' @ name @ b) @ ''\<newline>'' \<in> set (emitted cython_path self)"
    unfolding emitted_def h by simp
  then have "a @ '',\<newline>        complex '' @ name @ (b @ ''\<newline>'') \<in> set (emitted cython_path self)"
    by simp
  then show ?thesis
    by (intro exI)
qed

lemma append_eq_same_sep:
  "x \<notin> set a \<Longrightarrow> x \<notin> set b \<Longrightarrow> a @ x # r = b @ x # r' \<Longrightarrow> a = b"
proof (induction a arbitrary: b)
  case Nil
  then show ?case by (cases b) auto
next
  case (Cons y a)
  then show ?case by (cases b) auto
qed

lemma str_nat_not_Nil: "str_nat n \<noteq> []"
  by (subst str_nat.simps) simp

lemma digit_char_inj: "d < 10 \<Longrightarrow> e < 10 \<Longrightarrow> digit_char d = digit_char e \<Longrightarrow> d = e"
proof -
  assume "d < 10" "e < 10" and eq: "digit_char d = digit_char e"
  then have "d \<in> {0, 1, 2, 3, 4, 5, 6, 7, 8, 9}" "e \<in> {0, 1, 2, 3, 4, 5, 6, 7, 8, 9}"
    by auto
  with eq show ?thesis
    by (auto simp: digit_char_def)
qed

lemma str_nat_inj: "str_nat n = str_nat m \<Longrightarrow> n = m"
proof (induction n arbitrary: m rule: str_nat.induct)
  case (1 n)
  show ?case
  proof (cases "n < 10")
    case n: True
    show ?thesis
    proof (cases "m < 10")
      case True
      with n "1.prems" show ?thesis
        by (simp add: str_nat.simps [of n] str_nat.simps [of m] digit_char_inj)
    next
      case False
      with n "1.prems" show ?thesis
        using str_nat_not_Nil [of "m div 10"]
        by (simp add: str_nat.simps [of n] str_nat.simps [of m])
    qed
  next
    case n: False
    show ?thesis
    proof (cases "m < 10")
      case True
      with n "1.prems" show ?thesis
        using str_nat_not_Nil [of "n div 10"]
        by (simp add: str_nat.simps [of n] str_nat.simps [of m])
    next
      case False
      with n "1.prems" have "str_nat (n div 10) = str_nat (m div 10)"
        and "digit_char (n mod 10) = digit_char (m mod 10)"
        by (simp_all add: str_nat.simps [of n] str_nat.simps [of m])
      with n "1.IH" [of "m div 10"] have "n div 10 = m div 10" and "n mod 10 = m mod 10"
        by (simp_all add: digit_char_inj)
      then show ?thesis
        by (metis div_mult_mod_eq)
    qed
  qed
qed

lemma str_nat_no_bracket: "CHR ''['' \<notin> set (str_nat n)"
  using str_nat_digits [of n] by auto

lemma spmv_str_index: "spmv_str c i = spmv_str c' j \<Longrightarrow> i = j"
proof -
  assume "spmv_str c i = spmv_str c' j"
  then have "\<exists>r r'. str_nat i @ CHR ''['' # r = str_nat j @ CHR ''['' # r'"
    unfolding spmv_str_def by (simp only: append.simps list.inject) blast
  then have "str_nat i = str_nat j"
    using append_eq_same_sep [OF str_nat_no_bracket str_nat_no_bracket] by blast
  then show ?thesis by (rule str_nat_inj)
qed

lemma func_vars_blocks:
  assumes "i < length (system sys)"
  shows "func_vars (init sys) =
           (''# Eval the time-dependent terms and do SPMV.''
              # concat (map term_lines (enumerate 0 (take i (system sys)))))
           @ term_lines (i, system sys ! i)
           @ concat (map term_lines (enumerate (Suc i) (drop (Suc i) (system sys))))"
proof -
  have "system sys = take i (system sys) @ (system sys ! i) # drop (Suc i) (system sys)"
    using assms by (rule id_take_nth_drop)
  then have "enumerate 0 (system sys) =
               enumerate 0 (take i (system sys))
                 @ (i, system sys ! i) # enumerate (Suc i) (drop (Suc i) (system sys))"
    using assms by (metis add_0 enumerate_append_eq enumerate_simps(2) length_take min.absorb2
        less_imp_le_nat)
  then show ?thesis
    by (simp add: func_vars_eq init_def)
qed

lemma unguarded_only_own:
  "spmv_str c i \<in> set (term_lines (j, t)) \<Longrightarrow> j = i \<and> \<not> is_list t \<and> \<not> truthy (item1 t)"
proof -
  have s: "spmv_str c i = CHR ''s'' # tl (spmv_str c i)"
    by (simp add: spmv_str_def)
  have n: "spmv_str c i \<noteq> ''td'' @ x" "spmv_str c i \<noteq> ''if abs(td'' @ x"
    "spmv_str c i \<noteq> ''    '' @ x" for x
    by (subst s, simp)+
  assume "spmv_str c i \<in> set (term_lines (j, t))"
  with n have "\<not> (is_list t \<or> truthy (item1 t)) \<and> spmv_str c i = spmv_str ''1.0'' j"
    by (auto simp: term_lines_def split: if_splits)
  then show ?thesis
    using spmv_str_index [of c i "''1.0''" j] by simp
qed

lemma guarded_only_own:
  "''    '' @ spmv_str c i \<in> set (term_lines (j, t)) \<Longrightarrow> j = i \<and> (is_list t \<or> truthy (item1 t))"
proof -
  have s: "spmv_str c' k = CHR ''s'' # tl (spmv_str c' k)" for c' k
    by (simp add: spmv_str_def)
  assume a: "''    '' @ spmv_str c i \<in> set (term_lines (j, t))"
  have "''    '' @ spmv_str c i \<noteq> spmv_str ''1.0'' j"
    by (subst s [of "''1.0''" j]) simp
  with a have "(is_list t \<or> truthy (item1 t)) \<and> spmv_str c i = spmv_str (''td'' @ str_nat j) j"
    by (auto simp: term_lines_def split: if_splits)
  then show ?thesis
    using spmv_str_index [of c i "''td'' @ str_nat j" j] by simp
qed

lemma enumerate_before: "(j, t) \<in> set (enumerate 0 (take i xs)) \<Longrightarrow> j < i"
  by (auto simp: in_set_enumerate_eq)

lemma enumerate_after: "(j, t) \<in> set (enumerate (Suc i) xs) \<Longrightarrow> i < j"
  by (auto simp: in_set_enumerate_eq)

lemma not_in_other_blocks:
  assumes "\<And>j t. (j, t) \<in> set es \<Longrightarrow> l \<notin> set (term_lines (j, t))"
  shows "l \<notin> set (concat (map term_lines es))"
  using assms by auto

lemma td_decl_in_func_header:
  assumes "i < length (system sys)" and "truthy (item1 (system sys ! i))"
  shows "''cdef double complex td'' @ str_nat i \<in> set (func_header sys)"
proof -
  from assms(1) have "(i, system sys ! i) \<in> set (enumerate 0 (system sys))"
    by (simp add: in_set_enumerate_eq)
  moreover from assms(2) have "''cdef double complex td'' @ str_nat i \<in> set (td_decl (i, system sys ! i))"
    by (simp add: td_decl_def)
  ultimately have "''cdef double complex td'' @ str_nat i
                     \<in> set (concat (map td_decl (enumerate 0 (system sys))))"
    by (simp only: set_concat set_map) blast
  then show ?thesis
    unfolding func_header_eq by simp
qed

lemma no_unguarded_in_other_blocks:
  "spmv_str c i \<notin> set (concat (map term_lines (enumerate 0 (take i xs))))"
  "spmv_str c i \<notin> set (concat (map term_lines (enumerate (Suc i) ys)))"
proof -
  show "spmv_str c i \<notin> set (concat (map term_lines (enumerate 0 (take i xs))))"
  proof (rule not_in_other_blocks)
    fix j t
    assume "(j, t) \<in> set (enumerate 0 (take i xs))"
    then have "j < i" by (rule enumerate_before)
    then show "spmv_str c i \<notin> set (term_lines (j, t))"
      using unguarded_only_own [of c i j t] by auto
  qed
  show "spmv_str c i \<notin> set (concat (map term_lines (enumerate (Suc i) ys)))"
  proof (rule not_in_other_blocks)
    fix j t
    assume "(j, t) \<in> set (enumerate (Suc i) ys)"
    then have "i < j" by (rule enumerate_after)
    then show "spmv_str c i \<notin> set (term_lines (j, t))"
      using unguarded_only_own [of c i j t] by auto
  qed
qed

lemma no_guarded_in_other_blocks:
  "''    '' @ spmv_str c i \<notin> set (concat (map term_lines (enumerate 0 (take i xs))))"
  "''    '' @ spmv_str c i \<notin> set (concat (map term_lines (enumerate (Suc i) ys)))"
proof -
  show "''    '' @ spmv_str c i \<notin> set (concat (map term_lines (enumerate 0 (take i xs))))"
  proof (rule not_in_other_blocks)
    fix j t
    assume "(j, t) \<in> set (enumerate 0 (take i xs))"
    then have "j < i" by (rule enumerate_before)
    then show "''    '' @ spmv_str c i \<notin> set (term_lines (j, t))"
      using guarded_only_own [of c i j t] by auto
  qed
  show "''    '' @ spmv_str c i \<notin> set (concat (map term_lines (enumerate (Suc i) ys)))"
  proof (rule not_in_other_blocks)
    fix j t
    assume "(j, t) \<in> set (enumerate (Suc i) ys)"
    then have "i < j" by (rule enumerate_after)
    then show "''    '' @ spmv_str c i \<notin> set (term_lines (j, t))"
      using guarded_only_own [of c i j t] by auto
  qed
qed

lemma spmv_str_first: "spmv_str c i = CHR ''s'' # tl (spmv_str c i)"
  by (simp add: spmv_str_def)

lemma guard_only_own:
  "''if abs(td'' @ str_nat i @ '') > 1e-15:'' \<in> set (term_lines (j, t))
     \<Longrightarrow> j = i \<and> (is_list t \<or> truthy (item1 t))"
proof -
  have s: "spmv_str c' k = CHR ''s'' # tl (spmv_str c' k)" for c' k
    by (simp add: spmv_str_def)
  assume a: "''if abs(td'' @ str_nat i @ '') > 1e-15:'' \<in> set (term_lines (j, t))"
  have "''if abs(td'' @ str_nat i @ '') > 1e-15:'' \<noteq> spmv_str ''1.0'' j"
    by (subst s [of "''1.0''" j]) simp
  with a have "(is_list t \<or> truthy (item1 t)) \<and> str_nat i = str_nat j"
    by (auto simp: term_lines_def split: if_splits)
  then show ?thesis
    using str_nat_inj [of i j] by simp
qed

lemma no_guard_in_other_blocks:
  "''if abs(td'' @ str_nat i @ '') > 1e-15:''
     \<notin> set (concat (map term_lines (enumerate 0 (take i xs))))"
  "''if abs(td'' @ str_nat i @ '') > 1e-15:''
     \<notin> set (concat (map term_lines (enumerate (Suc i) ys)))"
proof -
  show "''if abs(td'' @ str_nat i @ '') > 1e-15:''
     \<notin> set (concat (map term_lines (enumerate 0 (take i xs))))"
  proof (rule not_in_other_blocks)
    fix j t
    assume "(j, t) \<in> set (enumerate 0 (take i xs))"
    then have "j < i" by (rule enumerate_before)
    then show "''if abs(td'' @ str_nat i @ '') > 1e-15:'' \<notin> set (term_lines (j, t))"
      using guard_only_own [of i j t] by auto
  qed
  show "''if abs(td'' @ str_nat i @ '') > 1e-15:''
     \<notin> set (concat (map term_lines (enumerate (Suc i) ys)))"
  proof (rule not_in_other_blocks)
    fix j t
    assume "(j, t) \<in> set (enumerate (Suc i) ys)"
    then have "i < j" by (rule enumerate_after)
    then show "''if abs(td'' @ str_nat i @ '') > 1e-15:'' \<notin> set (term_lines (j, t))"
      using guard_only_own [of i j t] by auto
  qed
qed

lemma chan_str_case:
  "chan_str = (\<lambda>(name, index).
      name @ '' = channel_value(t, '' @ str_int index @ '', '' @ name
        @ ''_pulses,  pulse_array, pulse_indices, '' @ name @ ''_fc, register)'')"
  by (rule ext) (simp add: chan_str_def split: prod.splits)

lemma emitted_init:
  "emitted cython_path (init sys) =
     map (\<lambda>l. l @ ''\<newline>'') (cython_preamble cython_path @ cython_checks @ ODE_func_header (init sys))
     @ map (\<lambda>l. ''    '' @ l @ ''\<newline>'')
         (func_header sys @ OPCodegen_channels (init sys) @ func_vars (init sys) @ func_end)"
  by (simp add: emitted_def init_def)

lemma digit_val_digit_char: "d < 10 \<Longrightarrow> digit_val (digit_char d) = d"
proof -
  assume "d < 10"
  then have "d \<in> {0, 1, 2, 3, 4, 5, 6, 7, 8, 9}" by auto
  then show ?thesis
    unfolding digit_val_def digit_char_def by (elim insertE emptyE) simp_all
qed

lemma nat_of_str_snoc: "nat_of_str (s @ [c]) = 10 * nat_of_str s + digit_val c"
  by (simp add: nat_of_str_def)

lemma nat_of_str_str_nat: "nat_of_str (str_nat n) = n"
proof (induction n rule: str_nat.induct)
  case (1 n)
  show ?case
  proof (cases "n < 10")
    case True
    then show ?thesis
      by (subst str_nat.simps) (simp add: nat_of_str_def digit_val_digit_char)
  next
    case False
    with 1 have "nat_of_str (str_nat (n div 10)) = n div 10" by simp
    with False show ?thesis
      by (subst str_nat.simps) (simp add: nat_of_str_snoc digit_val_digit_char)
  qed
qed

lemma str_nat_no_minus: "CHR ''-'' \<notin> set (str_nat n)"
  using str_nat_digits [of n] by auto

lemma int_of_str_str_int: "int_of_str (str_int i) = i"
proof (cases "i < 0")
  case True
  then have "str_int i = CHR ''-'' # str_nat (nat (- i))"
    by (simp add: str_int_def)
  then have "int_of_str (str_int i) = - int (nat_of_str (str_nat (nat (- i))))"
    by (simp add: int_of_str_def)
  with True show ?thesis
    by (simp add: nat_of_str_str_nat)
next
  case False
  then have e: "str_int i = str_nat (nat i)"
    by (simp add: str_int_def)
  obtain c r where cr: "str_nat (nat i) = c # r"
    using str_nat_not_Nil [of "nat i"] by (cases "str_nat (nat i)") auto
  have "c \<in> set (str_nat (nat i))"
    unfolding cr by simp
  then have "c \<noteq> CHR ''-''"
    using str_nat_no_minus [of "nat i"] by auto
  then have "int_of_str (c # r) = int (nat_of_str (c # r))"
    by (simp add: int_of_str_def)
  then have "int_of_str (str_int i) = int (nat_of_str (str_nat (nat i)))"
    unfolding e cr .
  with False show ?thesis
    by (simp add: nat_of_str_str_nat)
qed

lemma str_int_chars: "set (str_int i) \<subseteq> set ''-0123456789''"
proof -
  have d: "set ''0123456789'' \<subseteq> set ''-0123456789''"
    by simp
  have n: "set (str_nat k) \<subseteq> set ''-0123456789''" for k
    by (rule subset_trans [OF str_nat_digits d])
  show ?thesis
  proof (cases "i < 0")
    case True
    then have "str_int i = CHR ''-'' # str_nat (nat (- i))"
      by (simp add: str_int_def)
    then show ?thesis
      using n [of "nat (- i)"] by simp
  next
    case False
    then have "str_int i = str_nat (nat i)"
      by (simp add: str_int_def)
    then show ?thesis
      using n [of "nat i"] by simp
  qed
qed

lemma str_nat_12: "str_nat 12 = ''12''"
  by (subst str_nat.simps) (simp add: str_nat_Suc_0 digit_char_def)

lemma str_int_0: "str_int 0 = ''0''"
  by (simp add: str_int_def str_nat_0)

lemma str_int_12: "str_int 12 = ''12''"
  by (simp add: str_int_def str_nat_12)

lemma header_lines_length:
  "length (map (\<lambda>l. l @ ''\<newline>'')
             (cython_preamble cython_path @ cython_checks @ ODE_func_header self)) = 3"
  by (simp add: cython_preamble_def cython_checks_def ODE_func_header_eq)

text \<open>
  Constant terms that are not Python lists.  For every term at index \<open>i\<close> that is not a
  Python list and has no coefficient expression (\<open>None\<close> or the empty string), the lines
  of \<open>func_vars\<close> are the blocks of the earlier terms, then the single unguarded line
  \<open>spmvpy(&data<i>[0], &idx<i>[0], &ptr<i>[0], &vec[0], 1.0, &out[0], num_rows)\<close>, then
  the blocks of the later terms.  That line occurs exactly once, no guard on \<open>td<i>\<close> and
  no guarded call on the arrays of term \<open>i\<close> is emitted, and the blocks of all terms
  follow one another in the order of the term list.
\<close>

lemma constant_term_unguarded:
  assumes "i < length (system sys)"
    and "\<not> is_list (system sys ! i)" and "\<not> truthy (item1 (system sys ! i))"
  shows "func_vars (init sys) =
           (''# Eval the time-dependent terms and do SPMV.''
              # concat (map term_lines (enumerate 0 (take i (system sys)))))
           @ [spmv_str ''1.0'' i]
           @ concat (map term_lines (enumerate (Suc i) (drop (Suc i) (system sys))))
       \<and> spmv_str ''1.0'' i =
           ''spmvpy(&data'' @ str_nat i @ ''[0], &idx'' @ str_nat i @ ''[0], &ptr'' @ str_nat i
             @ ''[0], &vec[0], 1.0, &out[0], num_rows)''
       \<and> count_list (func_vars (init sys)) (spmv_str ''1.0'' i) = 1
       \<and> ''if abs(td'' @ str_nat i @ '') > 1e-15:'' \<notin> set (func_vars (init sys))
       \<and> (\<forall>c. ''    '' @ spmv_str c i \<notin> set (func_vars (init sys)))
       \<and> func_vars (init sys) =
           ''# Eval the time-dependent terms and do SPMV.''
             # concat (map term_lines (enumerate 0 (system sys)))"
proof -
  let ?B = "concat (map term_lines (enumerate 0 (take i (system sys))))"
  let ?A = "concat (map term_lines (enumerate (Suc i) (drop (Suc i) (system sys))))"
  let ?L = "spmv_str ''1.0'' i"
  let ?G = "''if abs(td'' @ str_nat i @ '') > 1e-15:''"
  have blk: "term_lines (i, system sys ! i) = [?L]"
    using assms(2,3) by (simp add: term_lines_def)
  have fv: "func_vars (init sys) =
           (''# Eval the time-dependent terms and do SPMV.'' # ?B) @ [?L] @ ?A"
    using func_vars_blocks [OF assms(1)] by (simp only: blk)
  have lit: "?L = ''spmvpy(&data'' @ str_nat i @ ''[0], &idx'' @ str_nat i @ ''[0], &ptr'' @ str_nat i
             @ ''[0], &vec[0], 1.0, &out[0], num_rows)''"
    by (simp add: spmv_str_def)
  have nh: "?L \<noteq> ''# Eval the time-dependent terms and do SPMV.''"
    by (subst spmv_str_first) simp
  have "count_list ?B ?L = 0" "count_list ?A ?L = 0"
    using no_unguarded_in_other_blocks [of "''1.0''" i]
    by (simp_all only: count_list_0_iff not_False_eq_True)
  then have cnt: "count_list (func_vars (init sys)) ?L = 1"
    unfolding fv using nh by simp
  have "?G \<notin> set ?B" "?G \<notin> set ?A"
    by (rule no_guard_in_other_blocks)+
  moreover have "?G \<noteq> ?L"
    by (subst spmv_str_first) simp
  ultimately have grd: "?G \<notin> set (func_vars (init sys))"
    unfolding fv by simp
  have ind: "''    '' @ spmv_str c i \<notin> set (func_vars (init sys))" for c
  proof -
    have "''    '' @ spmv_str c i \<notin> set ?B" "''    '' @ spmv_str c i \<notin> set ?A"
      by (rule no_guarded_in_other_blocks)+
    moreover have "''    '' @ spmv_str c i \<noteq> ?L"
      by (subst spmv_str_first [of "''1.0''"]) simp
    ultimately show ?thesis
      unfolding fv by simp
  qed
  have ord: "func_vars (init sys) =
           ''# Eval the time-dependent terms and do SPMV.''
             # concat (map term_lines (enumerate 0 (system sys)))"
    by (simp add: func_vars_eq init_def)
  from fv lit cnt grd ind ord show ?thesis
    by blast
qed

lemma constant_term_unguarded_example:
  "func_vars (init example_system) =
     [''# Eval the time-dependent terms and do SPMV.'',
      ''td0 = D0*v'',
      ''if abs(td0) > 1e-15:'',
      ''    spmvpy(&data0[0], &idx0[0], &ptr0[0], &vec[0], td0, &out[0], num_rows)'',
      ''spmvpy(&data1[0], &idx1[0], &ptr1[0], &vec[0], 1.0, &out[0], num_rows)'']
   \<and> count_list (func_vars (init example_system))
         ''spmvpy(&data1[0], &idx1[0], &ptr1[0], &vec[0], 1.0, &out[0], num_rows)'' = 1
   \<and> ''if abs(td1) > 1e-15:'' \<notin> set (func_vars (init example_system))"
proof -
  have e: "system example_system = [TupleTerm () (PyStr ''D0*v''), TupleTerm () PyNone]"
    by (simp add: example_system_def)
  have h: "1 < length (system example_system)" "\<not> is_list (system example_system ! 1)"
    "\<not> truthy (item1 (system example_system ! 1))"
    by (simp_all add: e)
  show ?thesis
    using constant_term_unguarded [OF h]
    by (simp add: e term_lines_def spmv_str_def str_nat_0 str_nat_Suc_0)
qed

section \<open>The claims\<close>

text \<open>
  Claim C1.  For every model, the header that \<open>ODE_func_header\<close> returns is the text
  \<open>def cy_td_ode_rhs(\<close>, then the declarations of \<open>header_args\<close> in that order, each
  behind a comma (the first one excepted) and white space, then \<open>):\<close>.  The list
  \<open>header_args\<close> is \<open>t\<close>, \<open>vec\<close>, the triple \<open>data<k>\<close>, \<open>idx<k>\<close>, \<open>ptr<k>\<close> of each
  term, \<open>pulse_array\<close>, \<open>pulse_indices\<close>, the pair \<open><name>_pulses\<close>, \<open><name>_fc\<close> of
  each channel in insertion order, one complex scalar per free variable in insertion
  order, and \<open>register\<close>; its length is
  \<open>2 + 3 * #terms + 2 + 2 * #channels + #variables + 1\<close>.  When no channel or variable
  name contains a comma, splitting the text between the parentheses at its commas gives
  back exactly these declarations.
\<close>

theorem C1_header_arguments:
  "ODE_func_header (init sys) =
     [''def cy_td_ode_rhs('' @
      tl (concat (map (\<lambda>(w, d). '','' @ w @ d) (header_decls sys))) @ ''):'']
   \<and> map snd (header_decls sys) = header_args sys
   \<and> set (map fst (header_decls sys)) \<subseteq> {''\<newline>        '', '' ''}
   \<and> length (header_args sys) =
       2 + 3 * length (system sys) + 2 + 2 * length (channels sys) + length (vars sys) + 1
   \<and> ((\<forall>key \<in> set (map fst (channels sys) @ map fst (vars sys)). CHR '','' \<notin> set key) \<longrightarrow>
        map declared_args (ODE_func_header (init sys)) = [header_args sys])"
proof -
  have p: "map declared_args (ODE_func_header (init sys)) = [header_args sys]"
    if "\<forall>key \<in> set (map fst (channels sys) @ map fst (vars sys)). CHR '','' \<notin> set key"
    using declared_args_header [OF that] by (simp only: header_from_decls list.map)
  show ?thesis
    using header_from_decls [of sys] header_decls_args [of sys] header_decls_layout [of sys]
      length_header_args [of sys] p
    by blast
qed

theorem C1_header_arguments_witness:
  "map declared_args (ODE_func_header (init example_system)) =
     [[''double t'', ''complex[::1] vec'',
       ''complex[::1] data0'', ''int[::1] idx0'', ''int[::1] ptr0'',
       ''complex[::1] data1'', ''int[::1] idx1'', ''int[::1] ptr1'',
       ''complex[::1] pulse_array'', ''unsigned int[::1] pulse_indices'',
       ''double[::1] D0_pulses'', ''double[::1] D0_fc'',
       ''complex v'',
       ''unsigned char[::1] register'']]
   \<and> length (header_args example_system) = 14"
proof -
  have "\<forall>key \<in> set (map fst (channels example_system) @ map fst (vars example_system)).
          CHR '','' \<notin> set key"
    by (simp add: example_system_def)
  with C1_header_arguments [of example_system]
  have "map declared_args (ODE_func_header (init example_system)) = [header_args example_system]"
    and "length (header_args example_system) =
       2 + 3 * length (system example_system) + 2 + 2 * length (channels example_system)
         + length (vars example_system) + 1"
    by blast+
  then show ?thesis
    by (simp add: header_args_def example_system_def upt_0_2 str_nat_0 str_nat_Suc_0)
qed

text \<open>
  Claim C9.  The indentation level never becomes negative: a freshly constructed generator
  has level 0 and any sequence of \<open>write\<close>, \<open>indent\<close> and \<open>dedent\<close> calls that does not
  raise leaves it at a level of at least 0; \<open>dedent\<close> at level 0 raises the error at once,
  without changing the object, and otherwise lowers the level by one; and \<open>write\<close>
  appends exactly one line, which is the given string behind four spaces per level and
  before a newline.
\<close>

theorem C9_indentation_level:
  "level (init sys) = 0
   \<and> (run_ops xs (init sys) = Inr self \<longrightarrow> 0 \<le> level self)
   \<and> (level self = 0 \<longrightarrow> dedent self = Inl (SyntaxError ''Error in code generator''))
   \<and> (0 < level self \<longrightarrow> (\<exists>self'. dedent self = Inr self' \<and> level self' = level self - 1
                                   \<and> code self' = code self))
   \<and> (0 \<le> level self \<longrightarrow>
        code (write s self) = code self @ [replicate (4 * nat (level self)) CHR '' '' @ s @ ''\<newline>'']
        \<and> level (write s self) = level self)"
proof -
  have l0: "level (init sys) = 0"
    by (simp add: init_def)
  have inv: "run_ops xs (init sys) = Inr self \<longrightarrow> 0 \<le> level self"
    using run_ops_level [of "init sys" xs self] l0 by simp
  have d0: "level self = 0 \<longrightarrow> dedent self = Inl (SyntaxError ''Error in code generator'')"
    by (simp add: dedent_def)
  have d1: "0 < level self \<longrightarrow> (\<exists>self'. dedent self = Inr self' \<and> level self' = level self - 1
                                   \<and> code self' = code self)"
    by (simp add: dedent_def)
  have w: "0 \<le> level self \<longrightarrow>
        code (write s self) = code self @ [replicate (4 * nat (level self)) CHR '' '' @ s @ ''\<newline>'']
        \<and> level (write s self) = level self"
    by (simp add: write_def str_times_spaces)
  from l0 inv d0 d1 w show ?thesis by blast
qed

theorem C9_indentation_level_witness:
  "level (init example_system) = 0
   \<and> 0 \<le> level (indent (init example_system))
   \<and> dedent (init example_system) = Inl (SyntaxError ''Error in code generator'')
   \<and> (\<exists>self'. dedent (indent (init example_system)) = Inr self' \<and> level self' = 0
               \<and> code self' = code (indent (init example_system)))
   \<and> code (write ''x'' (indent (init example_system))) = [''    x\<newline>'']"
proof -
  have r: "run_ops [Indent] (init example_system) = Inr (indent (init example_system))"
    by simp
  have l: "level (indent (init example_system)) = 1" "level (init example_system) = 0"
    "code (indent (init example_system)) = []"
    by (simp_all add: indent_def init_def)
  show ?thesis
    using C9_indentation_level [of example_system "[Indent]" "indent (init example_system)" "''x''"]
      C9_indentation_level [of example_system "[]" "init example_system" "''x''"]
    by (simp add: r l eval_nat_numeral)
qed

text \<open>
  Claim C10.  \<open>generate\<close> never resets the accumulated lines.  A first call on a fresh
  generator writes a file with exactly one kernel definition; a second call on the same
  object (whatever the file names) writes the complete text of the first file followed
  by a second copy of it, so that its file holds two kernel definitions.
\<close>

theorem C10_generate_not_idempotent:
  "\<exists>s1 w1 s2 w2 txt.
      generate cython_path f1 (init sys) w = Inr (s1, w1)
    \<and> generate cython_path f2 s1 w1 = Inr (s2, w2)
    \<and> files w1 f1 = Some txt
    \<and> files w2 f2 = Some (txt @ txt)
    \<and> txt = concat (code s1)
    \<and> code s2 = code s1 @ code s1
    \<and> length (filter defines_kernel (code s1)) = 1
    \<and> length (filter defines_kernel (code s2)) = 2"
proof -
  let ?e = "emitted cython_path (init sys)"
  let ?s1 = "(init sys)\<lparr>code := ?e\<rparr>"
  let ?w1 = "w\<lparr>files := (files w)(f1 \<mapsto> concat ?e), CGEN_NUM := CGEN_NUM w + 1\<rparr>"
  have g1: "generate cython_path f1 (init sys) w = Inr (?s1, ?w1)"
    by (rule generate_init)
  have l1: "level ?s1 = 0"
    by (simp add: init_def)
  let ?s2 = "?s1\<lparr>code := code ?s1 @ emitted cython_path ?s1\<rparr>"
  let ?w2 = "?w1\<lparr>files := (files ?w1)(f2 \<mapsto> concat (code ?s1 @ emitted cython_path ?s1)),
                     CGEN_NUM := CGEN_NUM ?w1 + 1\<rparr>"
  have g2: "generate cython_path f2 ?s1 ?w1 = Inr (?s2, ?w2)"
    using l1 by (rule generate_level0)
  have k: "length (filter defines_kernel ?e) = 1"
    by (rule kernel_defs_emitted)
  have a: "files ?w1 f1 = Some (concat ?e)"
    by simp
  have b: "files ?w2 f2 = Some (concat ?e @ concat ?e)"
    by simp
  have c: "concat ?e = concat (code ?s1)"
    by simp
  have d: "code ?s2 = code ?s1 @ code ?s1"
    by simp
  have e1: "length (filter defines_kernel (code ?s1)) = 1"
    using k by simp
  have e2: "length (filter defines_kernel (code ?s2)) = 2"
    using k by simp
  from g1 g2 a b c d e1 e2 show ?thesis
    by blast
qed

text \<open>
  Claim C3, as the code has it.  Two successive generations for one model, each on a
  fresh generator, both succeed; each adds one to the counter and writes the file named
  by its own file-name argument, whatever the counter is, with the same text.  The name
  is chosen by the caller and defaults to \<open>rhs.pyx\<close>.
\<close>

theorem C3_counter_and_file_name:
  "\<exists>s1 w1 s2 w2 txt.
      generate cython_path f1 (init sys) w = Inr (s1, w1)
    \<and> generate cython_path f2 (init sys) w1 = Inr (s2, w2)
    \<and> CGEN_NUM w1 = CGEN_NUM w + 1
    \<and> CGEN_NUM w2 = CGEN_NUM w + 2
    \<and> files w1 = (files w)(f1 \<mapsto> txt)
    \<and> files w2 = (files w)(f1 \<mapsto> txt, f2 \<mapsto> txt)
    \<and> code s1 = code s2
    \<and> txt = concat (code s1)
    \<and> generate_default cython_path (init sys) w = generate cython_path ''rhs.pyx'' (init sys) w"
proof -
  let ?e = "emitted cython_path (init sys)"
  let ?s = "(init sys)\<lparr>code := ?e\<rparr>"
  let ?w1 = "w\<lparr>files := (files w)(f1 \<mapsto> concat ?e), CGEN_NUM := CGEN_NUM w + 1\<rparr>"
  let ?w2 = "?w1\<lparr>files := (files ?w1)(f2 \<mapsto> concat ?e), CGEN_NUM := CGEN_NUM ?w1 + 1\<rparr>"
  have g1: "generate cython_path f1 (init sys) w = Inr (?s, ?w1)"
    by (rule generate_init)
  have g2: "generate cython_path f2 (init sys) ?w1 = Inr (?s, ?w2)"
    by (rule generate_init)
  have a: "CGEN_NUM ?w1 = CGEN_NUM w + 1" "CGEN_NUM ?w2 = CGEN_NUM w + 2"
    by simp_all
  have b: "files ?w1 = (files w)(f1 \<mapsto> concat ?e)"
    "files ?w2 = (files w)(f1 \<mapsto> concat ?e, f2 \<mapsto> concat ?e)"
    by simp_all
  have c: "code ?s = code ?s" "concat ?e = concat (code ?s)"
    by simp_all
  have d: "generate_default cython_path (init sys) w = generate cython_path ''rhs.pyx'' (init sys) w"
    by (simp add: generate_default_def)
  from g1 g2 a b c d show ?thesis
    by blast
qed

text \<open>
  The claim as written fails: two successive calls \<open>generate()\<close> for one model, with
  the counter at 0 and then at 1, both write \<open>rhs.pyx\<close>, and the second replaces the
  file of the first; no other file exists afterwards.
\<close>

theorem C3_same_name_counterexample:
  "generate_default ''/qutip/cy/'' (init example_system) \<lparr>files = Map.empty, CGEN_NUM = 0\<rparr>
     = Inr ((init example_system)\<lparr>code := emitted ''/qutip/cy/'' (init example_system)\<rparr>,
            \<lparr>files = [''rhs.pyx'' \<mapsto> concat (emitted ''/qutip/cy/'' (init example_system))],
             CGEN_NUM = 1\<rparr>)
   \<and> generate_default ''/qutip/cy/'' (init example_system)
        \<lparr>files = [''rhs.pyx'' \<mapsto> concat (emitted ''/qutip/cy/'' (init example_system))],
         CGEN_NUM = 1\<rparr>
     = Inr ((init example_system)\<lparr>code := emitted ''/qutip/cy/'' (init example_system)\<rparr>,
            \<lparr>files = [''rhs.pyx'' \<mapsto> concat (emitted ''/qutip/cy/'' (init example_system))],
             CGEN_NUM = 2\<rparr>)
   \<and> dom [''rhs.pyx'' \<mapsto> concat (emitted ''/qutip/cy/'' (init example_system))] = {''rhs.pyx''}"
  by (simp add: generate_default_def generate_init)

text \<open>
  Claim C4, as the code has it.  The generator does not check names.  For every model,
  generation on a fresh generator succeeds and writes the accumulated text to the file,
  and that text has a local declaration \<open>cdef double complex <name>\<close> for every channel
  name and an argument \<open>complex <name>\<close> in the function header for every free-variable
  name, whether or not the name is one the kernel uses itself.
\<close>

theorem C4_names_spliced_unchecked:
  "\<exists>s w'.
      generate cython_path filename (init sys) w = Inr (s, w')
    \<and> files w' filename = Some (concat (code s))
    \<and> (\<forall>name \<in> set (map fst (channels sys)).
          ''    cdef double complex '' @ name @ ''\<newline>'' \<in> set (code s))
    \<and> (\<forall>name \<in> set (map fst (vars sys)).
          \<exists>a b. a @ '',\<newline>        complex '' @ name @ b \<in> set (code s))"
proof -
  let ?e = "emitted cython_path (init sys)"
  let ?s = "(init sys)\<lparr>code := ?e\<rparr>"
  let ?w = "w\<lparr>files := (files w)(filename \<mapsto> concat ?e), CGEN_NUM := CGEN_NUM w + 1\<rparr>"
  have g: "generate cython_path filename (init sys) w = Inr (?s, ?w)"
    by (rule generate_init)
  have f: "files ?w filename = Some (concat (code ?s))"
    by simp
  have o: "op_system (init sys) = sys"
    by (simp add: init_def)
  have c: "\<forall>name \<in> set (map fst (channels sys)).
          ''    cdef double complex '' @ name @ ''\<newline>'' \<in> set (code ?s)"
    using emitted_has_channel_local [of _ "init sys" cython_path] by (simp add: o)
  have v: "\<forall>name \<in> set (map fst (vars sys)).
          \<exists>a b. a @ '',\<newline>        complex '' @ name @ b \<in> set (code ?s)"
    using emitted_has_var_argument [of _ "init sys" cython_path] by (simp add: o)
  from g f c v show ?thesis
    by blast
qed

text \<open>The theorem at a model whose names are \<open>vec\<close> and \<open>t\<close>.\<close>

theorem C4_names_spliced_unchecked_witness:
  "\<exists>s w'.
      generate ''/qutip/cy/'' ''rhs.pyx'' (init colliding_system) \<lparr>files = Map.empty, CGEN_NUM = 0\<rparr>
        = Inr (s, w')
    \<and> files w' ''rhs.pyx'' = Some (concat (code s))
    \<and> ''    cdef double complex vec\<newline>'' \<in> set (code s)
    \<and> (\<exists>a b. a @ '',\<newline>        complex t'' @ b \<in> set (code s))"
  using C4_names_spliced_unchecked [of "''/qutip/cy/''" "''rhs.pyx''" colliding_system
      "\<lparr>files = Map.empty, CGEN_NUM = 0\<rparr>"]
  by (simp add: colliding_system_def)

text \<open>
  The claim as written fails: for a channel named \<open>vec\<close> and a free variable named \<open>t\<close>
  generation succeeds and the file is written; its header declares \<open>t\<close> twice and its
  body declares a local \<open>vec\<close> beside the argument \<open>vec\<close>.
\<close>

theorem C4_reserved_name_counterexample:
  "generate ''/qutip/cy/'' ''rhs.pyx'' (init colliding_system) \<lparr>files = Map.empty, CGEN_NUM = 0\<rparr>
     = Inr ((init colliding_system)\<lparr>code := emitted ''/qutip/cy/'' (init colliding_system)\<rparr>,
            \<lparr>files = [''rhs.pyx'' \<mapsto> concat (emitted ''/qutip/cy/'' (init colliding_system))],
             CGEN_NUM = 1\<rparr>)
   \<and> ODE_func_header (init colliding_system) =
       [''def cy_td_ode_rhs(\<newline>        double t,\<newline>        complex[::1] vec,\<newline>        complex[::1] data0, int[::1] idx0, int[::1] ptr0,\<newline>        complex[::1] pulse_array,\<newline>        unsigned int[::1] pulse_indices,\<newline>        double[::1] vec_pulses,\<newline>        double[::1] vec_fc,\<newline>        complex t,\<newline>        unsigned char[::1] register):'']
   \<and> func_header colliding_system =
       [[], ''cdef size_t row'', ''cdef unsigned int num_rows = vec.shape[0]'',
        ''cdef double complex * out = <complex *>PyDataMem_NEW_ZEROED(num_rows,sizeof(complex))'',
        [], ''cdef double complex vec'', ''cdef double complex td0'']
   \<and> ''    cdef double complex vec\<newline>'' \<in> set (emitted ''/qutip/cy/'' (init colliding_system))"
proof -
  have h: "ODE_func_header (init colliding_system) =
       [''def cy_td_ode_rhs(\<newline>        double t,\<newline>        complex[::1] vec,\<newline>        complex[::1] data0, int[::1] idx0, int[::1] ptr0,\<newline>        complex[::1] pulse_array,\<newline>        unsigned int[::1] pulse_indices,\<newline>        double[::1] vec_pulses,\<newline>        double[::1] vec_fc,\<newline>        complex t,\<newline>        unsigned char[::1] register):'']"
    by (simp add: ODE_func_header_eq init_def colliding_system_def upt_0_1 str_nat_0)
  have f: "func_header colliding_system =
       [[], ''cdef size_t row'', ''cdef unsigned int num_rows = vec.shape[0]'',
        ''cdef double complex * out = <complex *>PyDataMem_NEW_ZEROED(num_rows,sizeof(complex))'',
        [], ''cdef double complex vec'', ''cdef double complex td0'']"
    by (simp add: func_header_eq colliding_system_def td_decl_def str_nat_0)
  have o: "op_system (init colliding_system) = colliding_system"
    by (simp add: init_def)
  have e: "''    cdef double complex vec\<newline>'' \<in> set (emitted ''/qutip/cy/'' (init colliding_system))"
    unfolding emitted_def o f by simp
  show ?thesis
    using h f e by (simp add: generate_init)
qed

text \<open>
  Claim C2.  For every term whose coefficient expression is present (a non-empty string),
  at index \<open>i\<close>, the lines of \<open>func_vars\<close> are the blocks of the earlier terms, then the
  three lines \<open>td<i> = <expression>\<close>, \<open>if abs(td<i>) > 1e-15:\<close> and, indented below
  that guard, the \<open>spmvpy\<close> call of the term with coefficient \<open>td<i>\<close>, then the blocks
  of the later terms.  This guarded call occurs exactly once, no call on the arrays of
  term \<open>i\<close> occurs outside a guard, and \<open>func_header\<close> declares the local \<open>td<i>\<close>.
  The comparison of the guard is strict, so a magnitude of exactly \<open>1e-15\<close> does not
  pass it.
\<close>

theorem C2_time_dependent_term_guarded:
  assumes "i < length (system sys)" and "truthy (item1 (system sys ! i))"
  shows "func_vars (init sys) =
           (''# Eval the time-dependent terms and do SPMV.''
              # concat (map term_lines (enumerate 0 (take i (system sys)))))
           @ [''td'' @ str_nat i @ '' = '' @ py_str (item1 (system sys ! i)),
              ''if abs(td'' @ str_nat i @ '') > 1e-15:'',
              ''    '' @ spmv_str (''td'' @ str_nat i) i]
           @ concat (map term_lines (enumerate (Suc i) (drop (Suc i) (system sys))))
       \<and> count_list (func_vars (init sys)) (''    '' @ spmv_str (''td'' @ str_nat i) i) = 1
       \<and> (\<forall>c. spmv_str c i \<notin> set (func_vars (init sys)))
       \<and> ''cdef double complex td'' @ str_nat i \<in> set (func_header sys)"
proof -
  let ?B = "concat (map term_lines (enumerate 0 (take i (system sys))))"
  let ?A = "concat (map term_lines (enumerate (Suc i) (drop (Suc i) (system sys))))"
  let ?L = "''    '' @ spmv_str (''td'' @ str_nat i) i"
  have blk: "term_lines (i, system sys ! i) =
               [''td'' @ str_nat i @ '' = '' @ py_str (item1 (system sys ! i)),
                ''if abs(td'' @ str_nat i @ '') > 1e-15:'', ?L]"
    using assms(2) by (simp add: term_lines_def)
  have fv: "func_vars (init sys) =
           (''# Eval the time-dependent terms and do SPMV.'' # ?B)
           @ [''td'' @ str_nat i @ '' = '' @ py_str (item1 (system sys ! i)),
              ''if abs(td'' @ str_nat i @ '') > 1e-15:'', ?L]
           @ ?A"
    using func_vars_blocks [OF assms(1)] by (simp only: blk)
  have "count_list ?B ?L = 0" "count_list ?A ?L = 0"
    using no_guarded_in_other_blocks [of "''td'' @ str_nat i" i]
    by (simp_all only: count_list_0_iff not_False_eq_True)
  then have cnt: "count_list (func_vars (init sys)) ?L = 1"
    unfolding fv by simp
  have ung: "spmv_str c i \<notin> set (func_vars (init sys))" for c
  proof -
    have "spmv_str c i \<notin> set ?B" "spmv_str c i \<notin> set ?A"
      by (rule no_unguarded_in_other_blocks)+
    moreover have "spmv_str c i \<noteq> ''# Eval the time-dependent terms and do SPMV.''"
      "spmv_str c i \<noteq> ''td'' @ str_nat i @ '' = '' @ py_str (item1 (system sys ! i))"
      "spmv_str c i \<noteq> ''if abs(td'' @ str_nat i @ '') > 1e-15:''"
      "spmv_str c i \<noteq> ?L"
      by (subst spmv_str_first, simp)+
    ultimately show ?thesis
      unfolding fv by simp
  qed
  from fv cnt ung td_decl_in_func_header [OF assms] show ?thesis
    by blast
qed

text \<open>The theorem at the first term of the example model.\<close>

theorem C2_time_dependent_term_guarded_witness:
  "func_vars (init example_system) =
     [''# Eval the time-dependent terms and do SPMV.'',
      ''td0 = D0*v'',
      ''if abs(td0) > 1e-15:'',
      ''    spmvpy(&data0[0], &idx0[0], &ptr0[0], &vec[0], td0, &out[0], num_rows)'',
      ''spmvpy(&data1[0], &idx1[0], &ptr1[0], &vec[0], 1.0, &out[0], num_rows)'']
   \<and> count_list (func_vars (init example_system))
         ''    spmvpy(&data0[0], &idx0[0], &ptr0[0], &vec[0], td0, &out[0], num_rows)'' = 1
   \<and> ''cdef double complex td0'' \<in> set (func_header example_system)"
proof -
  have h: "0 < length (system example_system)" "truthy (item1 (system example_system ! 0))"
    by (simp_all add: example_system_def)
  have e: "system example_system = [TupleTerm () (PyStr ''D0*v''), TupleTerm () PyNone]"
    by (simp add: example_system_def)
  show ?thesis
    using C2_time_dependent_term_guarded [OF h]
    by (simp add: e term_lines_def spmv_str_def str_nat_0 str_nat_Suc_0)
qed

text \<open>
  Claim C5 fails on the code.  For a term that is a Python list with no coefficient
  expression, \<open>func_vars\<close> assigns \<open>td0\<close> and guards on it, while \<open>func_header\<close>, which
  tests the coefficient alone, declares no local \<open>td0\<close>.
\<close>

theorem C5_declaration_mismatch:
  "func_vars (init list_term_system) =
     [''# Eval the time-dependent terms and do SPMV.'',
      ''td0 = None'',
      ''if abs(td0) > 1e-15:'',
      ''    spmvpy(&data0[0], &idx0[0], &ptr0[0], &vec[0], td0, &out[0], num_rows)'']
   \<and> func_header list_term_system =
     [[], ''cdef size_t row'', ''cdef unsigned int num_rows = vec.shape[0]'',
      ''cdef double complex * out = <complex *>PyDataMem_NEW_ZEROED(num_rows,sizeof(complex))'',
      []]
   \<and> ''td0 = None'' \<in> set (func_vars (init list_term_system))
   \<and> ''cdef double complex td0'' \<notin> set (func_header list_term_system)"
  by (simp add: func_vars_eq func_header_eq init_def list_term_system_def term_lines_def
      td_decl_def spmv_str_def str_nat_0)

text \<open>
  Claim C6, as the code has it.  Generation on a fresh generator succeeds, and the lines
  it accumulates are: the preamble, the directives and the function header; the local
  declarations; an empty line and a comment; then one statement per channel, in the
  order of the channel dictionary, of the form
  \<open><name> = channel_value(t, <index>, <name>_pulses,  pulse_array, pulse_indices, <name>_fc, register)\<close>,
  with two spaces after \<open><name>_pulses,\<close>; then an empty line; then all lines of
  \<open>func_vars\<close>, which hold every \<open>spmvpy\<close> call; then the epilogue.  \<open>channels\<close> does not
  look at the terms.  The index is printed in decimal: its text is made of digits and
  at most a leading minus sign, and reads back as the index.
\<close>

theorem C6_channel_statements:
  "\<exists>s w'.
      generate cython_path filename (init sys) w = Inr (s, w')
    \<and> files w' filename = Some (concat (code s))
    \<and> OPCodegen_channels (init sys) =
        [[], ''# Compute complex channel values at time `t`'']
        @ map (\<lambda>(name, index).
                 name @ '' = channel_value(t, '' @ str_int index @ '', '' @ name
                   @ ''_pulses,  pulse_array, pulse_indices, '' @ name @ ''_fc, register)'')
            (channels sys)
        @ [[]]
    \<and> code s =
        (map (\<lambda>l. l @ ''\<newline>'')
             (cython_preamble cython_path @ cython_checks @ ODE_func_header (init sys))
         @ map (\<lambda>l. ''    '' @ l @ ''\<newline>'')
             (func_header sys @ [[], ''# Compute complex channel values at time `t`'']))
        @ map (\<lambda>(name, index).
                 ''    '' @ (name @ '' = channel_value(t, '' @ str_int index @ '', '' @ name
                   @ ''_pulses,  pulse_array, pulse_indices, '' @ name @ ''_fc, register)'')
                   @ ''\<newline>'')
            (channels sys)
        @ [''    \<newline>'']
        @ map (\<lambda>l. ''    '' @ l @ ''\<newline>'') (func_vars (init sys))
        @ map (\<lambda>l. ''    '' @ l @ ''\<newline>'') func_end
    \<and> (\<forall>index. int_of_str (str_int index) = index)
    \<and> (\<forall>index. set (str_int index) \<subseteq> set ''-0123456789'')"
proof -
  let ?e = "emitted cython_path (init sys)"
  let ?s = "(init sys)\<lparr>code := ?e\<rparr>"
  let ?w = "w\<lparr>files := (files w)(filename \<mapsto> concat ?e), CGEN_NUM := CGEN_NUM w + 1\<rparr>"
  have g: "generate cython_path filename (init sys) w = Inr (?s, ?w)"
    by (rule generate_init)
  have f: "files ?w filename = Some (concat (code ?s))"
    by simp
  have c: "OPCodegen_channels (init sys) =
        [[], ''# Compute complex channel values at time `t`'']
        @ map (\<lambda>(name, index).
                 name @ '' = channel_value(t, '' @ str_int index @ '', '' @ name
                   @ ''_pulses,  pulse_array, pulse_indices, '' @ name @ ''_fc, register)'')
            (channels sys)
        @ [[]]"
    unfolding OPCodegen_channels_eq chan_str_case by (simp add: init_def)
  have l: "code ?s =
        (map (\<lambda>l. l @ ''\<newline>'')
             (cython_preamble cython_path @ cython_checks @ ODE_func_header (init sys))
         @ map (\<lambda>l. ''    '' @ l @ ''\<newline>'')
             (func_header sys @ [[], ''# Compute complex channel values at time `t`'']))
        @ map (\<lambda>(name, index).
                 ''    '' @ (name @ '' = channel_value(t, '' @ str_int index @ '', '' @ name
                   @ ''_pulses,  pulse_array, pulse_indices, '' @ name @ ''_fc, register)'')
                   @ ''\<newline>'')
            (channels sys)
        @ [''    \<newline>'']
        @ map (\<lambda>l. ''    '' @ l @ ''\<newline>'') (func_vars (init sys))
        @ map (\<lambda>l. ''    '' @ l @ ''\<newline>'') func_end"
    unfolding emitted_init c by (simp add: split_def)
  have r: "\<forall>index. int_of_str (str_int index) = index"
    by (simp add: int_of_str_str_int)
  have d: "\<forall>index. set (str_int index) \<subseteq> set ''-0123456789''"
    using str_int_chars by blast
  from g f c l r d show ?thesis
    by blast
qed

text \<open>
  The theorem at a model with the channels \<open>D0\<close>, of index 0, and \<open>U1\<close>, of index 12:
  the channel lines, and every line of the file after the function header.
\<close>

theorem C6_channel_statements_witness:
  "\<exists>s w'.
      generate ''/qutip/cy/'' ''rhs.pyx'' (init two_channel_system)
          \<lparr>files = Map.empty, CGEN_NUM = 0\<rparr> = Inr (s, w')
    \<and> OPCodegen_channels (init two_channel_system) =
        [[], ''# Compute complex channel values at time `t`'',
         ''D0 = channel_value(t, 0, D0_pulses,  pulse_array, pulse_indices, D0_fc, register)'',
         ''U1 = channel_value(t, 12, U1_pulses,  pulse_array, pulse_indices, U1_fc, register)'',
         []]
    \<and> drop 3 (code s) =
        [''    \<newline>'',
         ''    cdef size_t row\<newline>'',
         ''    cdef unsigned int num_rows = vec.shape[0]\<newline>'',
         ''    cdef double complex * out = <complex *>PyDataMem_NEW_ZEROED(num_rows,sizeof(complex))\<newline>'',
         ''    \<newline>'',
         ''    cdef double complex D0\<newline>'',
         ''    cdef double complex U1\<newline>'',
         ''    cdef double complex td0\<newline>'',
         ''    \<newline>'',
         ''    # Compute complex channel values at time `t`\<newline>'',
         ''    D0 = channel_value(t, 0, D0_pulses,  pulse_array, pulse_indices, D0_fc, register)\<newline>'',
         ''    U1 = channel_value(t, 12, U1_pulses,  pulse_array, pulse_indices, U1_fc, register)\<newline>'',
         ''    \<newline>'',
         ''    # Eval the time-dependent terms and do SPMV.\<newline>'',
         ''    td0 = D0*v\<newline>'',
         ''    if abs(td0) > 1e-15:\<newline>'',
         ''        spmvpy(&data0[0], &idx0[0], &ptr0[0], &vec[0], td0, &out[0], num_rows)\<newline>'',
         ''    \<newline>'',
         ''    # Convert to NumPy array, grab ownership, and return.\<newline>'',
         ''    cdef np.npy_intp dims = num_rows\<newline>'',
         ''    cdef np.ndarray[complex, ndim=1, mode='' @ [CHR 0x27] @ ''c'' @ [CHR 0x27]
           @ ''] arr_out = np.PyArray_SimpleNewFromData(1, &dims, np.NPY_COMPLEX128, out)\<newline>'',
         ''    PyArray_ENABLEFLAGS(arr_out, np.NPY_OWNDATA)\<newline>'',
         ''    return arr_out\<newline>'']
    \<and> int_of_str ''12'' = 12"
proof -
  have ch: "channels two_channel_system = [(''D0'', 0), (''U1'', 12)]"
    by (simp add: two_channel_system_def)
  have fh: "func_header two_channel_system =
        [[], ''cdef size_t row'', ''cdef unsigned int num_rows = vec.shape[0]'',
         ''cdef double complex * out = <complex *>PyDataMem_NEW_ZEROED(num_rows,sizeof(complex))'',
         [], ''cdef double complex D0'', ''cdef double complex U1'', ''cdef double complex td0'']"
    by (simp add: func_header_eq two_channel_system_def td_decl_def str_nat_0)
  have fv: "func_vars (init two_channel_system) =
        [''# Eval the time-dependent terms and do SPMV.'', ''td0 = D0*v'', ''if abs(td0) > 1e-15:'',
         ''    spmvpy(&data0[0], &idx0[0], &ptr0[0], &vec[0], td0, &out[0], num_rows)'']"
    by (simp add: func_vars_eq init_def two_channel_system_def term_lines_def spmv_str_def str_nat_0)
  have len: "length (map (\<lambda>l. l @ ''\<newline>'')
             (cython_preamble ''/qutip/cy/'' @ cython_checks
                @ ODE_func_header (init two_channel_system))) = 3"
    by (rule header_lines_length)
  from C6_channel_statements [of "''/qutip/cy/''" "''rhs.pyx''" two_channel_system
      "\<lparr>files = Map.empty, CGEN_NUM = 0\<rparr>"]
  obtain s w' where
    g: "generate ''/qutip/cy/'' ''rhs.pyx'' (init two_channel_system)
          \<lparr>files = Map.empty, CGEN_NUM = 0\<rparr> = Inr (s, w')"
    and c: "OPCodegen_channels (init two_channel_system) =
        [[], ''# Compute complex channel values at time `t`'']
        @ map (\<lambda>(name, index).
                 name @ '' = channel_value(t, '' @ str_int index @ '', '' @ name
                   @ ''_pulses,  pulse_array, pulse_indices, '' @ name @ ''_fc, register)'')
            (channels two_channel_system)
        @ [[]]"
    and l: "code s =
        (map (\<lambda>l. l @ ''\<newline>'')
             (cython_preamble ''/qutip/cy/'' @ cython_checks
                @ ODE_func_header (init two_channel_system))
         @ map (\<lambda>l. ''    '' @ l @ ''\<newline>'')
             (func_header two_channel_system
                @ [[], ''# Compute complex channel values at time `t`'']))
        @ map (\<lambda>(name, index).
                 ''    '' @ (name @ '' = channel_value(t, '' @ str_int index @ '', '' @ name
                   @ ''_pulses,  pulse_array, pulse_indices, '' @ name @ ''_fc, register)'')
                   @ ''\<newline>'')
            (channels two_channel_system)
        @ [''    \<newline>'']
        @ map (\<lambda>l. ''    '' @ l @ ''\<newline>'') (func_vars (init two_channel_system))
        @ map (\<lambda>l. ''    '' @ l @ ''\<newline>'') func_end"
    and r: "\<forall>index. int_of_str (str_int index) = index"
    by blast
  have c': "OPCodegen_channels (init two_channel_system) =
        [[], ''# Compute complex channel values at time `t`'',
         ''D0 = channel_value(t, 0, D0_pulses,  pulse_array, pulse_indices, D0_fc, register)'',
         ''U1 = channel_value(t, 12, U1_pulses,  pulse_array, pulse_indices, U1_fc, register)'',
         []]"
    unfolding c ch by (simp add: str_int_0 str_int_12)
  have "drop 3 (code s) =
         map (\<lambda>l. ''    '' @ l @ ''\<newline>'')
             (func_header two_channel_system
                @ [[], ''# Compute complex channel values at time `t`''])
        @ map (\<lambda>(name, index).
                 ''    '' @ (name @ '' = channel_value(t, '' @ str_int index @ '', '' @ name
                   @ ''_pulses,  pulse_array, pulse_indices, '' @ name @ ''_fc, register)'')
                   @ ''\<newline>'')
            (channels two_channel_system)
        @ [''    \<newline>'']
        @ map (\<lambda>l. ''    '' @ l @ ''\<newline>'') (func_vars (init two_channel_system))
        @ map (\<lambda>l. ''    '' @ l @ ''\<newline>'') func_end"
    unfolding l using len by simp
  then have d: "drop 3 (code s) =
        [''    \<newline>'',
         ''    cdef size_t row\<newline>'',
         ''    cdef unsigned int num_rows = vec.shape[0]\<newline>'',
         ''    cdef double complex * out = <complex *>PyDataMem_NEW_ZEROED(num_rows,sizeof(complex))\<newline>'',
         ''    \<newline>'',
         ''    cdef double complex D0\<newline>'',
         ''    cdef double complex U1\<newline>'',
         ''    cdef double complex td0\<newline>'',
         ''    \<newline>'',
         ''    # Compute complex channel values at time `t`\<newline>'',
         ''    D0 = channel_value(t, 0, D0_pulses,  pulse_array, pulse_indices, D0_fc, register)\<newline>'',
         ''    U1 = channel_value(t, 12, U1_pulses,  pulse_array, pulse_indices, U1_fc, register)\<newline>'',
         ''    \<newline>'',
         ''    # Eval the time-dependent terms and do SPMV.\<newline>'',
         ''    td0 = D0*v\<newline>'',
         ''    if abs(td0) > 1e-15:\<newline>'',
         ''        spmvpy(&data0[0], &idx0[0], &ptr0[0], &vec[0], td0, &out[0], num_rows)\<newline>'',
         ''    \<newline>'',
         ''    # Convert to NumPy array, grab ownership, and return.\<newline>'',
         ''    cdef np.npy_intp dims = num_rows\<newline>'',
         ''    cdef np.ndarray[complex, ndim=1, mode='' @ [CHR 0x27] @ ''c'' @ [CHR 0x27]
           @ ''] arr_out = np.PyArray_SimpleNewFromData(1, &dims, np.NPY_COMPLEX128, out)\<newline>'',
         ''    PyArray_ENABLEFLAGS(arr_out, np.NPY_OWNDATA)\<newline>'',
         ''    return arr_out\<newline>'']"
    unfolding fh fv ch by (simp add: func_end_def str_int_0 str_int_12)
  have i: "int_of_str ''12'' = 12"
    using r str_int_12 by metis
  from g c' d i show ?thesis
    by blast
qed

text \<open>
  The claim as written fails on the letter of the statement: the line emitted for the
  channel \<open>D0\<close> has two spaces after \<open>D0_pulses,\<close>, and the line with one space is not
  emitted.
\<close>

theorem C6_statement_text_counterexample:
  "OPCodegen_channels (init example_system) =
     [[], ''# Compute complex channel values at time `t`'',
      ''D0 = channel_value(t, 0, D0_pulses,  pulse_array, pulse_indices, D0_fc, register)'',
      []]
   \<and> ''D0 = channel_value(t, 0, D0_pulses, pulse_array, pulse_indices, D0_fc, register)''
         \<notin> set (OPCodegen_channels (init example_system))"
  by (simp add: OPCodegen_channels_eq chan_str_def init_def example_system_def str_int_0)

text \<open>
  Claim C7 fails on the code.  A term with no coefficient expression gets the unguarded
  call with coefficient \<open>1.0\<close> when it is a tuple, as \<open>func_header\<close>'s test of the
  coefficient alone expects; when it is a Python list, the test \<open>isinstance(term, list)\<close>
  of \<open>func_vars\<close> sends it to the other branch, which emits \<open>td0 = None\<close>, the guard and
  the guarded call on \<open>td0\<close>, and no call with coefficient \<open>1.0\<close>.
\<close>

theorem C7_list_term_guarded:
  "item1 (system list_term_system ! 0) = PyNone
   \<and> func_vars (init list_term_system) =
       [''# Eval the time-dependent terms and do SPMV.'',
        ''td0 = None'',
        ''if abs(td0) > 1e-15:'',
        ''    spmvpy(&data0[0], &idx0[0], &ptr0[0], &vec[0], td0, &out[0], num_rows)'']
   \<and> ''spmvpy(&data0[0], &idx0[0], &ptr0[0], &vec[0], 1.0, &out[0], num_rows)''
         \<notin> set (func_vars (init list_term_system))
   \<and> func_vars (init (list_term_system\<lparr>system := [TupleTerm () PyNone]\<rparr>)) =
       [''# Eval the time-dependent terms and do SPMV.'',
        ''spmvpy(&data0[0], &idx0[0], &ptr0[0], &vec[0], 1.0, &out[0], num_rows)'']
   \<and> func_header list_term_system =
       func_header (list_term_system\<lparr>system := [TupleTerm () PyNone]\<rparr>)"
  by (simp add: func_vars_eq func_header_eq init_def list_term_system_def term_lines_def
      td_decl_def spmv_str_def str_nat_0)

text \<open>
  Claim C8.  For a model with no term, generation on a fresh generator succeeds and
  writes the file.  The header has the arguments \<open>t\<close>, \<open>vec\<close>, \<open>pulse_array\<close>,
  \<open>pulse_indices\<close>, those of the channels and variables, and \<open>register\<close>, with no CSR
  triple.  The body of the function is, line by line: the fixed local declarations,
  among them the allocation of \<open>out\<close> by \<open>PyDataMem_NEW_ZEROED(num_rows,sizeof(complex))\<close>;
  one local per channel and no \<open>td\<close> local; the channel statements; the comment line of
  \<open>func_vars\<close> alone, so that no \<open>spmvpy\<close> call and no assignment to a \<open>td\<close> local is
  emitted; and the epilogue, which wraps \<open>out\<close>, with length \<open>num_rows\<close>, in the array
  \<open>arr_out\<close> and returns it.  No line between the allocation and the epilogue is a
  statement on \<open>out\<close>.
\<close>

theorem C8_empty_term_list:
  assumes "system sys = []"
  shows "\<exists>s w'.
      generate cython_path filename (init sys) w = Inr (s, w')
    \<and> files w' filename = Some (concat (code s))
    \<and> ODE_func_header (init sys) =
        [''def cy_td_ode_rhs(\<newline>        double t,\<newline>        complex[::1] vec,\<newline>        complex[::1] pulse_array,\<newline>        unsigned int[::1] pulse_indices''
         @ concat (map (\<lambda>name. '',\<newline>        double[::1] '' @ name @ ''_pulses''
                               @ '',\<newline>        double[::1] '' @ name @ ''_fc'')
                    (map fst (channels sys)))
         @ concat (map (\<lambda>name. '',\<newline>        complex '' @ name) (map fst (vars sys)))
         @ '',\<newline>        unsigned char[::1] register):'']
    \<and> func_vars (init sys) = [''# Eval the time-dependent terms and do SPMV.'']
    \<and> code s =
        map (\<lambda>l. l @ ''\<newline>'')
            (cython_preamble cython_path @ cython_checks @ ODE_func_header (init sys))
        @ map (\<lambda>l. ''    '' @ l @ ''\<newline>'')
             ([[], ''cdef size_t row'', ''cdef unsigned int num_rows = vec.shape[0]'',
               ''cdef double complex * out = <complex *>PyDataMem_NEW_ZEROED(num_rows,sizeof(complex))'',
               []]
              @ map (\<lambda>name. ''cdef double complex '' @ name) (map fst (channels sys))
              @ [[], ''# Compute complex channel values at time `t`'']
              @ map (\<lambda>(name, index).
                       name @ '' = channel_value(t, '' @ str_int index @ '', '' @ name
                         @ ''_pulses,  pulse_array, pulse_indices, '' @ name @ ''_fc, register)'')
                  (channels sys)
              @ [[],
                 ''# Eval the time-dependent terms and do SPMV.'',
                 [],
                 ''# Convert to NumPy array, grab ownership, and return.'',
                 ''cdef np.npy_intp dims = num_rows'',
                 ''cdef np.ndarray[complex, ndim=1, mode='' @ [CHR 0x27] @ ''c'' @ [CHR 0x27]
                   @ ''] arr_out = np.PyArray_SimpleNewFromData(1, &dims, np.NPY_COMPLEX128, out)'',
                 ''PyArray_ENABLEFLAGS(arr_out, np.NPY_OWNDATA)'',
                 ''return arr_out''])"
proof -
  let ?e = "emitted cython_path (init sys)"
  let ?s = "(init sys)\<lparr>code := ?e\<rparr>"
  let ?w = "w\<lparr>files := (files w)(filename \<mapsto> concat ?e), CGEN_NUM := CGEN_NUM w + 1\<rparr>"
  have g: "generate cython_path filename (init sys) w = Inr (?s, ?w)"
    by (rule generate_init)
  have f: "files ?w filename = Some (concat (code ?s))"
    by simp
  have h: "ODE_func_header (init sys) =
        [''def cy_td_ode_rhs(\<newline>        double t,\<newline>        complex[::1] vec,\<newline>        complex[::1] pulse_array,\<newline>        unsigned int[::1] pulse_indices''
         @ concat (map (\<lambda>name. '',\<newline>        double[::1] '' @ name @ ''_pulses''
                               @ '',\<newline>        double[::1] '' @ name @ ''_fc'')
                    (map fst (channels sys)))
         @ concat (map (\<lambda>name. '',\<newline>        complex '' @ name) (map fst (vars sys)))
         @ '',\<newline>        unsigned char[::1] register):'']"
    using assms by (simp add: ODE_func_header_eq init_def)
  have d: "func_header sys =
        [[], ''cdef size_t row'', ''cdef unsigned int num_rows = vec.shape[0]'',
         ''cdef double complex * out = <complex *>PyDataMem_NEW_ZEROED(num_rows,sizeof(complex))'',
         []]
        @ map (\<lambda>name. ''cdef double complex '' @ name) (map fst (channels sys))"
    using assms by (simp add: func_header_eq)
  have v: "func_vars (init sys) = [''# Eval the time-dependent terms and do SPMV.'']"
    using assms by (simp add: func_vars_eq init_def)
  have c: "OPCodegen_channels (init sys) =
        [[], ''# Compute complex channel values at time `t`'']
        @ map (\<lambda>(name, index).
                 name @ '' = channel_value(t, '' @ str_int index @ '', '' @ name
                   @ ''_pulses,  pulse_array, pulse_indices, '' @ name @ ''_fc, register)'')
            (channels sys)
        @ [[]]"
    unfolding OPCodegen_channels_eq chan_str_case by (simp add: init_def)
  have l: "code ?s =
        map (\<lambda>l. l @ ''\<newline>'')
            (cython_preamble cython_path @ cython_checks @ ODE_func_header (init sys))
        @ map (\<lambda>l. ''    '' @ l @ ''\<newline>'')
             ([[], ''cdef size_t row'', ''cdef unsigned int num_rows = vec.shape[0]'',
               ''cdef double complex * out = <complex *>PyDataMem_NEW_ZEROED(num_rows,sizeof(complex))'',
               []]
              @ map (\<lambda>name. ''cdef double complex '' @ name) (map fst (channels sys))
              @ [[], ''# Compute complex channel values at time `t`'']
              @ map (\<lambda>(name, index).
                       name @ '' = channel_value(t, '' @ str_int index @ '', '' @ name
                         @ ''_pulses,  pulse_array, pulse_indices, '' @ name @ ''_fc, register)'')
                  (channels sys)
              @ [[],
                 ''# Eval the time-dependent terms and do SPMV.'',
                 [],
                 ''# Convert to NumPy array, grab ownership, and return.'',
                 ''cdef np.npy_intp dims = num_rows'',
                 ''cdef np.ndarray[complex, ndim=1, mode='' @ [CHR 0x27] @ ''c'' @ [CHR 0x27]
                   @ ''] arr_out = np.PyArray_SimpleNewFromData(1, &dims, np.NPY_COMPLEX128, out)'',
                 ''PyArray_ENABLEFLAGS(arr_out, np.NPY_OWNDATA)'',
                 ''return arr_out''])"
    unfolding emitted_init v d c by (simp add: func_end_def)
  from g f h v l show ?thesis
    by blast
qed

text \<open>
  The theorem at a model with no term and the channel \<open>D0\<close>: the whole file after the
  preamble and the directives.
\<close>

theorem C8_empty_term_list_witness:
  "\<exists>s w'.
      generate ''/qutip/cy/'' ''rhs.pyx'' (init empty_system) \<lparr>files = Map.empty, CGEN_NUM = 0\<rparr>
        = Inr (s, w')
    \<and> files w' ''rhs.pyx'' = Some (concat (code s))
    \<and> func_vars (init empty_system) = [''# Eval the time-dependent terms and do SPMV.'']
    \<and> code s =
        map (\<lambda>l. l @ ''\<newline>'') (cython_preamble ''/qutip/cy/'' @ cython_checks)
        @ [''def cy_td_ode_rhs(\<newline>        double t,\<newline>        complex[::1] vec,\<newline>        complex[::1] pulse_array,\<newline>        unsigned int[::1] pulse_indices,\<newline>        double[::1] D0_pulses,\<newline>        double[::1] D0_fc,\<newline>        unsigned char[::1] register):\<newline>'',
         ''    \<newline>'',
         ''    cdef size_t row\<newline>'',
         ''    cdef unsigned int num_rows = vec.shape[0]\<newline>'',
         ''    cdef double complex * out = <complex *>PyDataMem_NEW_ZEROED(num_rows,sizeof(complex))\<newline>'',
         ''    \<newline>'',
         ''    cdef double complex D0\<newline>'',
         ''    \<newline>'',
         ''    # Compute complex channel values at time `t`\<newline>'',
         ''    D0 = channel_value(t, 0, D0_pulses,  pulse_array, pulse_indices, D0_fc, register)\<newline>'',
         ''    \<newline>'',
         ''    # Eval the time-dependent terms and do SPMV.\<newline>'',
         ''    \<newline>'',
         ''    # Convert to NumPy array, grab ownership, and return.\<newline>'',
         ''    cdef np.npy_intp dims = num_rows\<newline>'',
         ''    cdef np.ndarray[complex, ndim=1, mode='' @ [CHR 0x27] @ ''c'' @ [CHR 0x27]
           @ ''] arr_out = np.PyArray_SimpleNewFromData(1, &dims, np.NPY_COMPLEX128, out)\<newline>'',
         ''    PyArray_ENABLEFLAGS(arr_out, np.NPY_OWNDATA)\<newline>'',
         ''    return arr_out\<newline>'']"
proof -
  have h: "system empty_system = []"
    by (simp add: empty_system_def)
  have c: "channels empty_system = [(''D0'', 0)]" "vars empty_system = []"
    by (simp_all add: empty_system_def)
  from C8_empty_term_list [OF h, of "''/qutip/cy/''" "''rhs.pyx''"
      "\<lparr>files = Map.empty, CGEN_NUM = 0\<rparr>"]
  obtain s w' where
    g: "generate ''/qutip/cy/'' ''rhs.pyx'' (init empty_system) \<lparr>files = Map.empty, CGEN_NUM = 0\<rparr>
        = Inr (s, w')"
    and f: "files w' ''rhs.pyx'' = Some (concat (code s))"
    and hd: "ODE_func_header (init empty_system) =
        [''def cy_td_ode_rhs(\<newline>        double t,\<newline>        complex[::1] vec,\<newline>        complex[::1] pulse_array,\<newline>        unsigned int[::1] pulse_indices''
         @ concat (map (\<lambda>name. '',\<newline>        double[::1] '' @ name @ ''_pulses''
                               @ '',\<newline>        double[::1] '' @ name @ ''_fc'')
                    (map fst (channels empty_system)))
         @ concat (map (\<lambda>name. '',\<newline>        complex '' @ name) (map fst (vars empty_system)))
         @ '',\<newline>        unsigned char[::1] register):'']"
    and v: "func_vars (init empty_system) = [''# Eval the time-dependent terms and do SPMV.'']"
    and l: "code s =
        map (\<lambda>l. l @ ''\<newline>'')
            (cython_preamble ''/qutip/cy/'' @ cython_checks @ ODE_func_header (init empty_system))
        @ map (\<lambda>l. ''    '' @ l @ ''\<newline>'')
             ([[], ''cdef size_t row'', ''cdef unsigned int num_rows = vec.shape[0]'',
               ''cdef double complex * out = <complex *>PyDataMem_NEW_ZEROED(num_rows,sizeof(complex))'',
               []]
              @ map (\<lambda>name. ''cdef double complex '' @ name) (map fst (channels empty_system))
              @ [[], ''# Compute complex channel values at time `t`'']
              @ map (\<lambda>(name, index).
                       name @ '' = channel_value(t, '' @ str_int index @ '', '' @ name
                         @ ''_pulses,  pulse_array, pulse_indices, '' @ name @ ''_fc, register)'')
                  (channels empty_system)
              @ [[],
                 ''# Eval the time-dependent terms and do SPMV.'',
                 [],
                 ''# Convert to NumPy array, grab ownership, and return.'',
                 ''cdef np.npy_intp dims = num_rows'',
                 ''cdef np.ndarray[complex, ndim=1, mode='' @ [CHR 0x27] @ ''c'' @ [CHR 0x27]
                   @ ''] arr_out = np.PyArray_SimpleNewFromData(1, &dims, np.NPY_COMPLEX128, out)'',
                 ''PyArray_ENABLEFLAGS(arr_out, np.NPY_OWNDATA)'',
                 ''return arr_out''])"
    by blast
  have l': "code s =
        map (\<lambda>l. l @ ''\<newline>'') (cython_preamble ''/qutip/cy/'' @ cython_checks)
        @ [''def cy_td_ode_rhs(\<newline>        double t,\<newline>        complex[::1] vec,\<newline>        complex[::1] pulse_array,\<newline>        unsigned int[::1] pulse_indices,\<newline>        double[::1] D0_pulses,\<newline>        double[::1] D0_fc,\<newline>        unsigned char[::1] register):\<newline>'',
         ''    \<newline>'',
         ''    cdef size_t row\<newline>'',
         ''    cdef unsigned int num_rows = vec.shape[0]\<newline>'',
         ''    cdef double complex * out = <complex *>PyDataMem_NEW_ZEROED(num_rows,sizeof(complex))\<newline>'',
         ''    \<newline>'',
         ''    cdef double complex D0\<newline>'',
         ''    \<newline>'',
         ''    # Compute complex channel values at time `t`\<newline>'',
         ''    D0 = channel_value(t, 0, D0_pulses,  pulse_array, pulse_indices, D0_fc, register)\<newline>'',
         ''    \<newline>'',
         ''    # Eval the time-dependent terms and do SPMV.\<newline>'',
         ''    \<newline>'',
         ''    # Convert to NumPy array, grab ownership, and return.\<newline>'',
         ''    cdef np.npy_intp dims = num_rows\<newline>'',
         ''    cdef np.ndarray[complex, ndim=1, mode='' @ [CHR 0x27] @ ''c'' @ [CHR 0x27]
           @ ''] arr_out = np.PyArray_SimpleNewFromData(1, &dims, np.NPY_COMPLEX128, out)\<newline>'',
         ''    PyArray_ENABLEFLAGS(arr_out, np.NPY_OWNDATA)\<newline>'',
         ''    return arr_out\<newline>'']"
    unfolding l hd c by (simp add: str_int_0)
  from g f v l' show ?thesis
    by blast
qed

end
